theory Spec2Isabelle
  imports Complex_Main "HOL-Library.AList" "HOL-Library.Sublist"
begin

section \<open>WorldeSimulator: the solver core of worldle.py\<close>

text \<open>
  The functions of \<^verbatim>\<open>worldle.py\<close> that make up the solver are embedded here:
  the frequency tables, \<^verbatim>\<open>get_feedback\<close>, \<^verbatim>\<open>filter_words\<close>, \<^verbatim>\<open>score_word\<close> and
  \<^verbatim>\<open>simulate_game_stats\<close>. Python strings are \<open>string\<close>s, a Python float is the real
  number it denotes and every float operation rounds its exact result to a double, a
  \<^verbatim>\<open>dict\<close> that is iterated is an association list in insertion order, a \<^verbatim>\<open>dict\<close> that
  is only looked up is a map, and a \<^verbatim>\<open>set\<close> is a set. Where the code iterates a set and the
  order can show in the result, the order is an argument of the model. Every exception
  the code can raise is a value \<open>Inl e\<close> of the result.
\<close>

datatype error = IndexError | KeyError

subsection \<open>Float arithmetic\<close>

text \<open>
  Python's \<^verbatim>\<open>float\<close> is the IEEE 754 binary64 format and its operations round to nearest,
  ties to even. \<open>round_double\<close> rounds a real to the nearest double: to 53 significant
  bits at the binary exponent of the number, and to multiples of 2 to the power -1074
  below 2 to the power -1022 (gradual underflow). Overflow to infinity, infinities and NaN are not
  modelled: the numbers of the model are finite.
\<close>

definition round_even :: "real \<Rightarrow> int" where
  "round_even y =
     (let f = \<lfloor>y\<rfloor>; d = y - of_int f
      in if d < 1/2 then f else if 1/2 < d then f + 1 else if even f then f else f + 1)"

definition pow2 :: "int \<Rightarrow> real" where
  "pow2 e = (if 0 \<le> e then 2 ^ nat e else 1 / 2 ^ nat (- e))"

definition round_double :: "real \<Rightarrow> real" where
  "round_double x =
     (if x = 0 then 0
      else (let e = max \<lfloor>log 2 \<bar>x\<bar>\<rfloor> (- 1022); q = pow2 (e - 52)
            in of_int (round_even (x / q)) * q))"

definition float_add :: "real \<Rightarrow> real \<Rightarrow> real" where
  "float_add x y = round_double (x + y)"

definition float_mul :: "real \<Rightarrow> real \<Rightarrow> real" where
  "float_mul x y = round_double (x * y)"

definition float_div :: "real \<Rightarrow> real \<Rightarrow> real" where
  "float_div x y = round_double (x / y)"

text \<open>
  The built-in \<^verbatim>\<open>sum\<close> on numbers: it starts from 0 and adds the items from left to
  right, each addition rounded (CPython before 3.12; later versions compensate the
  rounding errors of the additions).
\<close>

definition float_sum :: "real list \<Rightarrow> real" where
  "float_sum xs = foldl float_add 0 xs"

subsection \<open>Frequency analysis\<close>

text \<open>
  The three builders end with the same dictionary comprehension
  \<^verbatim>\<open>{k: count / total for k, count in counts.items()}\<close> over a \<^verbatim>\<open>Counter\<close>, with
  \<^verbatim>\<open>total = sum(counts.values())\<close>. \<open>normalise\<close> is that comprehension for the counter
  of a list of observations. No division happens when the counter is empty.
\<close>

definition normalise :: "'a list \<Rightarrow> ('a \<rightharpoonup> real)" where
  "normalise obs =
     (let keys = remdups obs;
          total = sum_list (map (count_list obs) keys)
      in map_of (map (\<lambda>k. (k, float_div (real (count_list obs k)) (real total))) keys))"

definition get_letter_probs :: "string list \<Rightarrow> (char \<rightharpoonup> real)" where
  "get_letter_probs words = (let all_letters = concat words in normalise all_letters)"

text \<open>
  \<^verbatim>\<open>range(len(word) - n + 1)\<close> is empty when the bound is not positive, which is what
  the truncating subtraction on \<open>nat\<close> gives; the slice \<^verbatim>\<open>word[i:i+n]\<close> never raises.
\<close>

definition get_ngram_probs :: "string list \<Rightarrow> nat \<Rightarrow> (string \<rightharpoonup> real)" where
  "get_ngram_probs words n =
     normalise (concat (map (\<lambda>word. map (\<lambda>i. take n (drop i word)) [0..<length word + 1 - n]) words))"

text \<open>
  \<^verbatim>\<open>pos_counts[i][ch] += 1\<close> indexes a list of five counters: a word longer than five
  letters raises \<^verbatim>\<open>IndexError\<close>.
\<close>

definition get_positional_probs :: "string list \<Rightarrow> error + (char \<rightharpoonup> real) list" where
  "get_positional_probs words =
     (if \<exists>word \<in> set words. 5 < length word then Inl IndexError
      else Inr (map (\<lambda>i. normalise (map (\<lambda>word. word ! i) (filter (\<lambda>word. i < length word) words)))
                    [0..<5]))"

subsection \<open>Feedback simulation\<close>

text \<open>
  The loop of \<^verbatim>\<open>get_feedback\<close> over \<^verbatim>\<open>enumerate(guess)\<close>. \<^verbatim>\<open>actual[i]\<close> raises
  \<^verbatim>\<open>IndexError\<close> when the guess is longer than the target. \<^verbatim>\<open>green\<close> is a dict from
  position to letter, \<^verbatim>\<open>yellow\<close> a list of (letter, position), \<^verbatim>\<open>gray\<close> a set of letters.
\<close>

type_synonym feedback = "(nat \<times> char) list \<times> (char \<times> nat) list \<times> char set"

fun get_feedback_loop ::
  "string \<Rightarrow> string \<Rightarrow> (nat \<times> char) list \<Rightarrow> feedback \<Rightarrow> error + feedback" where
  "get_feedback_loop guess actual [] fb = Inr fb"
| "get_feedback_loop guess actual ((i, ch) # rest) (green, yellow, gray) =
     (if length actual \<le> i then Inl IndexError
      else if ch = actual ! i then
        get_feedback_loop guess actual rest (AList.update i ch green, yellow, gray)
      else if ch \<in> set actual then
        (if count_list guess ch \<le> count_list actual ch then
           get_feedback_loop guess actual rest (green, yellow @ [(ch, i)], gray)
         else
           get_feedback_loop guess actual rest (green, yellow, insert ch gray))
      else
        get_feedback_loop guess actual rest (green, yellow, insert ch gray))"

definition get_feedback :: "string \<Rightarrow> string \<Rightarrow> error + feedback" where
  "get_feedback guess actual = get_feedback_loop guess actual (enumerate 0 guess) ([], [], {})"

subsection \<open>Word filtering\<close>

text \<open>
  The three inner loops of \<^verbatim>\<open>filter_words\<close>, each ending at the first failing entry.
  \<^verbatim>\<open>word[pos]\<close> raises \<^verbatim>\<open>IndexError\<close> when the word is too short; in the yellow loop
  \<^verbatim>\<open>char not in word\<close> is tested first and short-circuits the index. Positions are
  natural numbers, as \<^verbatim>\<open>enumerate\<close> in \<^verbatim>\<open>get_feedback\<close> produces them.
\<close>

fun check_green :: "string \<Rightarrow> (nat \<times> char) list \<Rightarrow> error + bool" where
  "check_green word [] = Inr True"
| "check_green word ((pos, c) # rest) =
     (if length word \<le> pos then Inl IndexError
      else if word ! pos \<noteq> c then Inr False
      else check_green word rest)"

fun check_yellow :: "string \<Rightarrow> (char \<times> nat) list \<Rightarrow> error + bool" where
  "check_yellow word [] = Inr True"
| "check_yellow word ((c, pos) # rest) =
     (if c \<notin> set word then Inr False
      else if length word \<le> pos then Inl IndexError
      else if word ! pos = c then Inr False
      else check_yellow word rest)"

text \<open>
  The gray loop raises nothing, so the order in which the set is iterated does not
  matter: the word stays valid iff no gray letter meets the rejecting condition.
\<close>

definition check_gray ::
  "string \<Rightarrow> (nat \<times> char) list \<Rightarrow> (char \<times> nat) list \<Rightarrow> char set \<Rightarrow> bool" where
  "check_gray word green yellow gray =
     (\<not> (\<exists>c \<in> gray. c \<in> set word \<and> c \<notin> snd ` set green \<and> (\<forall>y \<in> set yellow. c \<noteq> fst y)))"

fun filter_words_loop ::
  "string list \<Rightarrow> (nat \<times> char) list \<Rightarrow> (char \<times> nat) list \<Rightarrow> char set \<Rightarrow> string list
     \<Rightarrow> error + string list" where
  "filter_words_loop [] green yellow gray filtered = Inr filtered"
| "filter_words_loop (word # words) green yellow gray filtered =
     (case check_green word green of
        Inl e \<Rightarrow> Inl e
      | Inr valid \<Rightarrow>
          if \<not> valid then filter_words_loop words green yellow gray filtered
          else
            (case check_yellow word yellow of
               Inl e \<Rightarrow> Inl e
             | Inr valid \<Rightarrow>
                 if \<not> valid then filter_words_loop words green yellow gray filtered
                 else if \<not> check_gray word green yellow gray then
                   filter_words_loop words green yellow gray filtered
                 else filter_words_loop words green yellow gray (filtered @ [word])))"

definition filter_words ::
  "string list \<Rightarrow> (nat \<times> char) list \<Rightarrow> (char \<times> nat) list \<Rightarrow> char set \<Rightarrow> error + string list" where
  "filter_words words green yellow gray = filter_words_loop words green yellow gray []"

subsection \<open>Word scoring\<close>

text \<open>\<^verbatim>\<open>d.get(k, 0)\<close> and \<^verbatim>\<open>d[k]\<close> on a dictionary.\<close>

definition get_or_0 :: "('k \<rightharpoonup> real) \<Rightarrow> 'k \<Rightarrow> real" where
  "get_or_0 d k = (case d k of None \<Rightarrow> 0 | Some v \<Rightarrow> v)"

definition subscript :: "('k \<rightharpoonup> 'v) \<Rightarrow> 'k \<Rightarrow> error + 'v" where
  "subscript d k = (case d k of None \<Rightarrow> Inl KeyError | Some v \<Rightarrow> Inr v)"

text \<open>
  \<^verbatim>\<open>score_word\<close>, in the order Python evaluates it: the repeat penalty (a lookup only
  when the word has fewer than five distinct letters), the four sums (the position sum
  indexes \<^verbatim>\<open>pos_probs[i]\<close> and \<^verbatim>\<open>word[i]\<close> for \<open>i < 5\<close>), then the four weights.

  The letter sum iterates \<^verbatim>\<open>set(word)\<close>. The order in which a set of strings is iterated
  depends on the hash seed of the interpreter process, and a sum of floats depends on
  the order of its items; so the order is the argument \<open>set_order\<close>: the list of the
  elements of \<^verbatim>\<open>set(word)\<close> in iteration order. For an order that Python can produce,
  \<open>set_order word\<close> is distinct and has the letters of \<open>word\<close> as its elements.
\<close>

definition score_word ::
  "(string \<Rightarrow> char list) \<Rightarrow> string \<Rightarrow> (char \<rightharpoonup> real) \<Rightarrow> (string \<rightharpoonup> real) \<Rightarrow> (string \<rightharpoonup> real)
     \<Rightarrow> (char \<rightharpoonup> real) list \<Rightarrow> (string \<rightharpoonup> real) \<Rightarrow> error + real" where
  "score_word set_order word letter_probs bigram_probs trigram_probs pos_probs weights =
     (let unique_letters = set word in
      case (if card unique_letters < 5 then subscript weights ''repeat_penalty'' else Inr 1) of
        Inl e \<Rightarrow> Inl e
      | Inr repeat_penalty \<Rightarrow>
     (let letter_score = float_sum (map (\<lambda>c. get_or_0 letter_probs c) (set_order word));
          bigram_score =
            float_sum (map (\<lambda>i. get_or_0 bigram_probs (take 2 (drop i word))) [0..<4]);
          trigram_score =
            float_sum (map (\<lambda>i. get_or_0 trigram_probs (take 3 (drop i word))) [0..<3])
      in if length pos_probs < 5 \<or> length word < 5 then Inl IndexError
      else
     (let position_score =
            float_sum (map (\<lambda>i. get_or_0 (pos_probs ! i) (word ! i)) [0..<5]) in
      (case subscript weights ''letter'' of Inl e \<Rightarrow> Inl e | Inr w_letter \<Rightarrow>
      (case subscript weights ''bigram'' of Inl e \<Rightarrow> Inl e | Inr w_bigram \<Rightarrow>
      (case subscript weights ''trigram'' of Inl e \<Rightarrow> Inl e | Inr w_trigram \<Rightarrow>
      (case subscript weights ''position'' of Inl e \<Rightarrow> Inl e | Inr w_position \<Rightarrow>
        Inr (float_mul repeat_penalty
              (float_add
                (float_add
                  (float_add (float_mul w_letter letter_score) (float_mul w_bigram bigram_score))
                  (float_mul w_trigram trigram_score))
                (float_mul w_position position_score))))))))))"

text \<open>
  The weights of the main script: 1.0, 0.5, 0.25, 0.75 and 0.9, the last one as the
  double that the literal denotes.
\<close>

definition default_weights :: "string \<rightharpoonup> real" where
  "default_weights =
     map_of [(''letter'', 1), (''bigram'', 1/2), (''trigram'', 1/4), (''position'', 3/4),
             (''repeat_penalty'', 8106479329266893 / 9007199254740992)]"

subsection \<open>Game simulation\<close>

text \<open>
  \<^verbatim>\<open>sorted(xs, key=f, reverse=True)\<close>: the key of every element is computed first,
  in list order (an exception of the key function leaves the call), then the list is
  sorted by descending key. Python's sort is stable, also with \<^verbatim>\<open>reverse=True\<close>:
  elements with equal keys keep their order. \<open>sort_key\<close> is a stable ascending sort,
  here on the negated key.
\<close>

fun keys_of :: "('a \<Rightarrow> error + real) \<Rightarrow> 'a list \<Rightarrow> error + real list" where
  "keys_of key [] = Inr []"
| "keys_of key (x # xs) =
     (case key x of
        Inl e \<Rightarrow> Inl e
      | Inr k \<Rightarrow> (case keys_of key xs of Inl e \<Rightarrow> Inl e | Inr ks \<Rightarrow> Inr (k # ks)))"

definition sorted_reverse :: "('a \<Rightarrow> error + real) \<Rightarrow> 'a list \<Rightarrow> error + 'a list" where
  "sorted_reverse key xs =
     (case keys_of key xs of
        Inl e \<Rightarrow> Inl e
      | Inr ks \<Rightarrow> Inr (map fst (sort_key (\<lambda>p. - snd p) (zip xs ks))))"

text \<open>
  The list \<^verbatim>\<open>scored\<close> of the loop body: the ranked candidates that are not in
  \<^verbatim>\<open>used_guesses\<close>.
\<close>

definition scored_list ::
  "('a \<Rightarrow> error + real) \<Rightarrow> 'a list \<Rightarrow> 'a set \<Rightarrow> error + 'a list" where
  "scored_list key possible used =
     (case sorted_reverse key possible of
        Inl e \<Rightarrow> Inl e
      | Inr ranked \<Rightarrow> Inr (filter (\<lambda>w. w \<notin> used) ranked))"

text \<open>
  The function returns a pair (attempts or \<^verbatim>\<open>None\<close>, guess log) and, on every return
  but the solved one, prints a message first. The message is part of the modelled
  result: \<open>Skipped\<close> is "is not in the list. Skipping.", \<open>NoPossibleWords\<close> is
  "no possible words left after filtering.", \<open>NoNewCandidates\<close> is "No new candidates
  after filtering.", \<open>GaveUp\<close> is "Gave up ... after 12 attempts.".
\<close>

datatype outcome = Skipped | NoPossibleWords | NoNewCandidates | Solved | GaveUp

type_synonym result = "outcome \<times> nat option \<times> (string \<times> nat) list"

definition max_attempts :: nat where
  "max_attempts = 12"

text \<open>\<^verbatim>\<open>green.update(g)\<close>: every item of \<open>g\<close> is stored, in order.\<close>

definition dict_update :: "('k \<times> 'v) list \<Rightarrow> ('k \<times> 'v) list \<Rightarrow> ('k \<times> 'v) list" where
  "dict_update d g = fold (\<lambda>(k, v). AList.update k v) g d"

record sim_state =
  green :: "(nat \<times> char) list"
  yellow :: "(char \<times> nat) list"
  gray :: "char set"
  attempts :: nat
  possible_words :: "string list"
  used_guesses :: "string set"
  guess_log :: "(string \<times> nat) list"

text \<open>
  One pass through the body of \<^verbatim>\<open>while True\<close>: an exception, a \<^verbatim>\<open>return\<close>
  (\<open>Inr (Inl result)\<close>) or the state at the start of the next pass.
\<close>

definition loop_body ::
  "(string \<Rightarrow> char list) \<Rightarrow> string \<Rightarrow> (string \<rightharpoonup> real) \<Rightarrow> (char \<rightharpoonup> real) \<Rightarrow> (string \<rightharpoonup> real) \<Rightarrow> (string \<rightharpoonup> real)
     \<Rightarrow> (char \<rightharpoonup> real) list \<Rightarrow> sim_state \<Rightarrow> error + (result + sim_state)" where
  "loop_body set_order target_word weights letter_probs bigram_probs trigram_probs pos_probs st =
     (if possible_words st = [] then Inr (Inl (NoPossibleWords, None, guess_log st))
      else
        (case scored_list
                (\<lambda>w. score_word set_order w letter_probs bigram_probs trigram_probs pos_probs weights)
                (possible_words st) (used_guesses st) of
           Inl e \<Rightarrow> Inl e
         | Inr [] \<Rightarrow> Inr (Inl (NoNewCandidates, None, guess_log st))
         | Inr (guess # _) \<Rightarrow>
             (let used' = insert guess (used_guesses st);
                  attempts' = attempts st + 1;
                  log' = guess_log st @ [(guess, length (possible_words st))]
              in if guess = target_word then Inr (Inl (Solved, Some attempts', log'))
                 else if max_attempts \<le> attempts' then Inr (Inl (GaveUp, None, log'))
                 else
                   (case get_feedback guess target_word of
                      Inl e \<Rightarrow> Inl e
                    | Inr (g, y, r) \<Rightarrow>
                        (let green' = dict_update (green st) g;
                             yellow' = yellow st @ y;
                             gray' = gray st \<union> r
                         in case filter_words (possible_words st) green' yellow' gray' of
                              Inl e \<Rightarrow> Inl e
                            | Inr possible' \<Rightarrow>
                                Inr (Inr \<lparr>green = green', yellow = yellow', gray = gray',
                                          attempts = attempts', possible_words = possible',
                                          used_guesses = used', guess_log = log'\<rparr>))))))"

text \<open>
  The loop. It ends because a pass that does not return has raised \<^verbatim>\<open>attempts\<close> by
  one and left it below \<^verbatim>\<open>max_attempts\<close>.
\<close>

function simulate_loop ::
  "(string \<Rightarrow> char list) \<Rightarrow> string \<Rightarrow> (string \<rightharpoonup> real) \<Rightarrow> (char \<rightharpoonup> real) \<Rightarrow> (string \<rightharpoonup> real) \<Rightarrow> (string \<rightharpoonup> real)
     \<Rightarrow> (char \<rightharpoonup> real) list \<Rightarrow> sim_state \<Rightarrow> error + result" where
  "simulate_loop set_order target_word weights letter_probs bigram_probs trigram_probs pos_probs st =
     (case loop_body set_order target_word weights letter_probs bigram_probs trigram_probs pos_probs st of
        Inl e \<Rightarrow> Inl e
      | Inr (Inl res) \<Rightarrow> Inr res
      | Inr (Inr st') \<Rightarrow>
          simulate_loop set_order target_word weights letter_probs bigram_probs trigram_probs pos_probs st')"
  by pat_completeness auto
termination
  by (relation "measure (\<lambda>(so, t, w, lp, bp, tp, pp, st). max_attempts - attempts st)")
     (auto simp: loop_body_def Let_def split: if_splits sum.splits list.splits)

definition simulate_game_stats ::
  "(string \<Rightarrow> char list) \<Rightarrow> string \<Rightarrow> string list \<Rightarrow> (string \<rightharpoonup> real) \<Rightarrow> (char \<rightharpoonup> real) \<Rightarrow> (string \<rightharpoonup> real)
     \<Rightarrow> (string \<rightharpoonup> real) \<Rightarrow> (char \<rightharpoonup> real) list \<Rightarrow> error + result" where
  "simulate_game_stats set_order target_word word_list weights letter_probs bigram_probs trigram_probs pos_probs =
     (if target_word \<notin> set word_list then Inr (Skipped, None, [])
      else simulate_loop set_order target_word weights letter_probs bigram_probs trigram_probs pos_probs
             \<lparr>green = [], yellow = [], gray = {}, attempts = 0, possible_words = word_list,
              used_guesses = {}, guess_log = []\<rparr>)"

text \<open>
  The same loop with a bound on the number of passes through the body: \<open>None\<close> when
  the bound is reached before the loop has returned or raised.
\<close>

fun simulate_loop_passes ::
  "nat \<Rightarrow> (string \<Rightarrow> char list) \<Rightarrow> string \<Rightarrow> (string \<rightharpoonup> real) \<Rightarrow> (char \<rightharpoonup> real) \<Rightarrow> (string \<rightharpoonup> real) \<Rightarrow> (string \<rightharpoonup> real)
     \<Rightarrow> (char \<rightharpoonup> real) list \<Rightarrow> sim_state \<Rightarrow> (error + result) option" where
  "simulate_loop_passes 0 set_order target_word weights letter_probs bigram_probs trigram_probs pos_probs st = None"
| "simulate_loop_passes (Suc n) set_order target_word weights letter_probs bigram_probs trigram_probs pos_probs st =
     (case loop_body set_order target_word weights letter_probs bigram_probs trigram_probs pos_probs st of
        Inl e \<Rightarrow> Some (Inl e)
      | Inr (Inl res) \<Rightarrow> Some (Inr res)
      | Inr (Inr st') \<Rightarrow>
          simulate_loop_passes n set_order target_word weights letter_probs bigram_probs trigram_probs pos_probs st')"

subsection \<open>Auxiliary notions for the statements\<close>

text \<open>
  The three branches of the body of \<^verbatim>\<open>get_feedback\<close>'s loop, as predicates on an
  entry (position, letter) of \<^verbatim>\<open>enumerate(guess)\<close>.
\<close>

definition is_fixed :: "string \<Rightarrow> nat \<times> char \<Rightarrow> bool" where
  "is_fixed actual p = (snd p = actual ! fst p)"

definition is_misplaced :: "string \<Rightarrow> string \<Rightarrow> nat \<times> char \<Rightarrow> bool" where
  "is_misplaced guess actual p =
     (snd p \<noteq> actual ! fst p \<and> snd p \<in> set actual \<and>
      count_list guess (snd p) \<le> count_list actual (snd p))"

definition is_absent :: "string \<Rightarrow> string \<Rightarrow> nat \<times> char \<Rightarrow> bool" where
  "is_absent guess actual p =
     (snd p \<noteq> actual ! fst p \<and>
      (snd p \<in> set actual \<longrightarrow> count_list actual (snd p) < count_list guess (snd p)))"

text \<open>
  The classification the specification describes for position \<open>i\<close> of the guess:
  an exact match is fixed; otherwise the occurrence is misplaced while the running
  count of its letter in the guess, up to and including \<open>i\<close>, does not exceed the
  letter's count in the target, and absent beyond that.
\<close>

datatype mark = Fixed | Misplaced | Absent

definition spec_mark :: "string \<Rightarrow> string \<Rightarrow> nat \<Rightarrow> mark" where
  "spec_mark guess target i =
     (if guess ! i = target ! i then Fixed
      else if count_list (take (Suc i) guess) (guess ! i) \<le> count_list target (guess ! i)
        then Misplaced
      else Absent)"

text \<open>
  What \<^verbatim>\<open>filter_words\<close> decides for one word, and the condition under which no index
  of the constraints is out of range for a word.
\<close>

definition keeps :: "(nat \<times> char) list \<Rightarrow> (char \<times> nat) list \<Rightarrow> char set \<Rightarrow> string \<Rightarrow> bool" where
  "keeps g y r w =
     ((\<forall>(pos, c) \<in> set g. pos < length w \<and> w ! pos = c) \<and>
      (\<forall>(c, pos) \<in> set y. c \<in> set w \<and> pos < length w \<and> w ! pos \<noteq> c) \<and>
      (\<forall>c \<in> r. c \<notin> set w \<or> c \<in> snd ` set g \<or> c \<in> fst ` set y))"

definition in_range :: "(nat \<times> char) list \<Rightarrow> (char \<times> nat) list \<Rightarrow> string \<Rightarrow> bool" where
  "in_range g y w =
     ((\<forall>pos \<in> fst ` set g. pos < length w) \<and> (\<forall>pos \<in> snd ` set y. pos < length w))"

text \<open>
  The retention rule as the specification words it: an absent letter may occur in the
  word only at positions that a fixed or misplaced entry of that same letter names.
\<close>

definition spec_retained ::
  "(nat \<times> char) list \<Rightarrow> (char \<times> nat) list \<Rightarrow> char set \<Rightarrow> string \<Rightarrow> bool" where
  "spec_retained g y r w =
     ((\<forall>(pos, c) \<in> set g. pos < length w \<and> w ! pos = c) \<and>
      (\<forall>(c, pos) \<in> set y. c \<in> set w \<and> pos < length w \<and> w ! pos \<noteq> c) \<and>
      (\<forall>c \<in> r. c \<notin> set w \<or>
         (\<forall>pos < length w. w ! pos = c \<longrightarrow> (pos, c) \<in> set g \<or> (c, pos) \<in> set y)))"

text \<open>
  The key of an element whose key function returned, for the statements about the
  ranking.
\<close>

definition key_value :: "('a \<Rightarrow> error + real) \<Rightarrow> 'a \<Rightarrow> real" where
  "key_value key x = (case key x of Inl e \<Rightarrow> 0 | Inr k \<Rightarrow> k)"

text \<open>
  \<open>first_best key used possible g\<close>: among the candidates not yet used, in the order
  of the pool, \<open>g\<close> is the first one whose key is maximal: every unused candidate
  before it has a strictly smaller key and every one after it a key that is not larger.
  \<open>log_after\<close> is the guess log with which a pass through the loop body ends.
\<close>

definition first_best :: "('a \<Rightarrow> error + real) \<Rightarrow> 'a set \<Rightarrow> 'a list \<Rightarrow> 'a \<Rightarrow> bool" where
  "first_best key used possible g =
     (\<exists>us vs s. filter (\<lambda>w. w \<notin> used) possible = us @ g # vs \<and> key g = Inr s \<and>
        (\<forall>u \<in> set us. \<exists>k. key u = Inr k \<and> k < s) \<and>
        (\<forall>v \<in> set vs. \<exists>k. key v = Inr k \<and> k \<le> s))"

fun log_after :: "result + sim_state \<Rightarrow> (string \<times> nat) list" where
  "log_after (Inl (oc, a, gl)) = gl"
| "log_after (Inr st') = guess_log st'"

text \<open>
  Two iteration orders of the letter sets. On the words apple, blimp and crane they are
  the orders in which CPython 3.11 iterates \<^verbatim>\<open>set(word)\<close> with the hash seed 0 and with
  the hash seed 1 (\<^verbatim>\<open>PYTHONHASHSEED\<close>); on every other word they list the letters as
  \<open>remdups\<close> does.
\<close>

definition order_a :: "string \<Rightarrow> char list" where
  "order_a w =
     (if w = ''crane'' then ''nrcae'' else if w = ''blimp'' then ''bimpl''
      else if w = ''apple'' then ''peal'' else remdups w)"

definition order_b :: "string \<Rightarrow> char list" where
  "order_b w =
     (if w = ''crane'' then ''renac'' else if w = ''blimp'' then ''mlbip''
      else if w = ''apple'' then ''lape'' else remdups w)"

text \<open>
  A letter table for the runs that show the effect of the order:
  \<^verbatim>\<open>{'c': 0.1, 'r': 0.2, 'a': 0.3, 'b': 0.6}\<close>, each value the double that its literal
  denotes.
\<close>

definition letters_table :: "char \<rightharpoonup> real" where
  "letters_table =
     map_of [(CHR ''c'', 3602879701896397 / 36028797018963968),
             (CHR ''r'', 3602879701896397 / 18014398509481984),
             (CHR ''a'', 5404319552844595 / 18014398509481984),
             (CHR ''b'', 5404319552844595 / 9007199254740992)]"

section \<open>Properties\<close>

subsection \<open>Feedback\<close>

lemma update_fresh: "k \<notin> fst ` set al \<Longrightarrow> AList.update k v al = al @ [(k, v)]"
  by (induction al) auto

lemma get_feedback_loop_closed:
  "k + length xs \<le> length actual \<Longrightarrow> \<forall>p \<in> set g. fst p < k \<Longrightarrow>
   get_feedback_loop guess actual (enumerate k xs) (g, y, r) =
     Inr (g @ filter (is_fixed actual) (enumerate k xs),
          y @ map prod.swap (filter (is_misplaced guess actual) (enumerate k xs)),
          r \<union> snd ` set (filter (is_absent guess actual) (enumerate k xs)))"
proof (induction xs arbitrary: k g y r)
  case Nil
  then show ?case by simp
next
  case (Cons x xs)
  have fresh: "k \<notin> fst ` set g" using Cons.prems(2) by auto
  have len: "Suc k + length xs \<le> length actual" "k < length actual" using Cons.prems(1) by auto
  have keys: "\<forall>p \<in> set (g @ [(k, x)]). fst p < Suc k" "\<forall>p \<in> set g. fst p < Suc k"
    using Cons.prems(2) by auto
  show ?case
  proof (cases "x = actual ! k")
    case True
    then show ?thesis
      using Cons.IH[OF len(1) keys(1)] len(2) fresh
      by (auto simp: update_fresh is_fixed_def is_misplaced_def is_absent_def)
  next
    case False
    then show ?thesis
      using Cons.IH[OF len(1) keys(2)] len(2)
      by (auto simp: is_fixed_def is_misplaced_def is_absent_def)
  qed
qed

lemma get_feedback_closed:
  "length guess \<le> length actual \<Longrightarrow>
   get_feedback guess actual =
     Inr (filter (is_fixed actual) (enumerate 0 guess),
          map prod.swap (filter (is_misplaced guess actual) (enumerate 0 guess)),
          snd ` set (filter (is_absent guess actual) (enumerate 0 guess)))"
  unfolding get_feedback_def
  using get_feedback_loop_closed[of 0 guess actual "[]" guess "[]" "{}"] by simp

lemma enumerate_mem:
  "p \<in> set (enumerate k xs) \<longleftrightarrow> k \<le> fst p \<and> fst p < k + length xs \<and> snd p = xs ! (fst p - k)"
  by (cases p) (auto simp: in_set_enumerate_eq)

lemma count_list_enumerate:
  "length (filter (\<lambda>p. snd p = L) (enumerate k xs)) = count_list xs L"
  by (induction xs arbitrary: k) auto

lemma fixed_le_count:
  "k + length xs \<le> length actual \<Longrightarrow>
   length (filter (\<lambda>p. snd p = L \<and> is_fixed actual p) (enumerate k xs))
     \<le> count_list (drop k actual) L"
proof (induction xs arbitrary: k)
  case Nil
  then show ?case by simp
next
  case (Cons x xs)
  have k: "k < length actual" and len: "Suc k + length xs \<le> length actual"
    using Cons.prems by auto
  have d: "drop k actual = actual ! k # drop (Suc k) actual"
    using k by (simp add: Cons_nth_drop_Suc)
  show ?case using Cons.IH[OF len] by (auto simp: d is_fixed_def)
qed

lemma disjoint_filters_le:
  "\<forall>x \<in> set xs. \<not> (P x \<and> Q x) \<Longrightarrow> length (filter P xs) + length (filter Q xs) \<le> length xs"
  by (induction xs) auto

lemma present_le_count:
  assumes "length guess \<le> length actual"
  shows "length (filter (\<lambda>p. snd p = L) (filter (is_fixed actual) (enumerate 0 guess))) +
         length (filter (\<lambda>p. snd p = L) (filter (is_misplaced guess actual) (enumerate 0 guess)))
           \<le> count_list actual L"
proof (cases "count_list guess L \<le> count_list actual L")
  case True
  let ?e = "filter (\<lambda>p. snd p = L) (enumerate 0 guess)"
  have "length (filter (is_fixed actual) ?e) + length (filter (is_misplaced guess actual) ?e)
          \<le> length ?e"
    by (rule disjoint_filters_le) (auto simp: is_fixed_def is_misplaced_def)
  also have "length ?e = count_list guess L" by (rule count_list_enumerate)
  finally show ?thesis using True by (simp add: conj_commute)
next
  case False
  have "filter (\<lambda>p. snd p = L) (filter (is_misplaced guess actual) (enumerate 0 guess)) = []"
    using False by (auto simp: filter_empty_conv is_misplaced_def)
  moreover have "length (filter (\<lambda>p. snd p = L \<and> is_fixed actual p) (enumerate 0 guess))
                   \<le> count_list (drop 0 actual) L"
    by (rule fixed_le_count) (use assms in simp)
  ultimately show ?thesis by (simp add: conj_commute)
qed

text \<open>
  C1. The claim: an occurrence that is not an exact match is misplaced while the running
  count of its letter in the guess does not exceed the letter's count in the target,
  and absent beyond that; with one copy in the target and two in the guess, exactly one
  occurrence is signalled present. The code compares the whole count of the letter in
  the guess instead: for the guess "salsa" and the target "stale" both occurrences of
  the letter a are put into gray and none into green or yellow, where the rule of the
  claim makes the first one misplaced.
\<close>

theorem get_feedback_salsa_stale:
  "get_feedback ''salsa'' ''stale'' =
     Inr ([(0, CHR ''s'')], [(CHR ''l'', 2)], {CHR ''a'', CHR ''s''}) \<and>
   spec_mark ''salsa'' ''stale'' 1 = Misplaced \<and>
   spec_mark ''salsa'' ''stale'' 4 = Absent"
  by (auto simp: get_feedback_def enumerate_eq_zip upt_rec spec_mark_def)

text \<open>
  C2. For a guess and a target of equal length \<^verbatim>\<open>get_feedback\<close> returns, and every
  position of the guess is in exactly one of three classes: its entry is in green and
  not in yellow (fixed), in yellow and not in green (misplaced), or in neither and its
  letter is in gray (absent). Green and yellow hold entries of the guess only, each
  position at most once, and for every letter the number of green entries plus the
  number of yellow entries with that letter is at most the letter's count in the target.
\<close>

theorem get_feedback_classifies:
  assumes "length guess = length actual"
  shows "\<exists>g y r. get_feedback guess actual = Inr (g, y, r) \<and>
           distinct (map fst g) \<and> distinct (map snd y) \<and>
           (\<forall>i c. (i, c) \<in> set g \<or> (c, i) \<in> set y \<longrightarrow> i < length guess \<and> c = guess ! i) \<and>
           (\<forall>i < length guess.
              ((i, guess ! i) \<in> set g \<and> (guess ! i, i) \<notin> set y) \<or>
              ((i, guess ! i) \<notin> set g \<and> (guess ! i, i) \<in> set y) \<or>
              ((i, guess ! i) \<notin> set g \<and> (guess ! i, i) \<notin> set y \<and> guess ! i \<in> r)) \<and>
           (\<forall>L. length (filter (\<lambda>p. snd p = L) g) + length (filter (\<lambda>p. fst p = L) y)
                  \<le> count_list actual L)"
proof -
  let ?e = "enumerate 0 guess"
  let ?g = "filter (is_fixed actual) ?e"
  let ?m = "filter (is_misplaced guess actual) ?e"
  let ?y = "map prod.swap ?m"
  let ?r = "snd ` set (filter (is_absent guess actual) ?e)"
  have fb: "get_feedback guess actual = Inr (?g, ?y, ?r)"
    using assms by (simp add: get_feedback_closed)
  have d1: "distinct (map fst ?g)"
    by (simp add: distinct_map_filter)
  have d2: "distinct (map snd ?y)"
    by (simp add: comp_def distinct_map_filter)
  have mem: "\<forall>i c. (i, c) \<in> set ?g \<or> (c, i) \<in> set ?y \<longrightarrow> i < length guess \<and> c = guess ! i"
    by (auto simp: enumerate_mem)
  have cls: "\<forall>i < length guess.
              ((i, guess ! i) \<in> set ?g \<and> (guess ! i, i) \<notin> set ?y) \<or>
              ((i, guess ! i) \<notin> set ?g \<and> (guess ! i, i) \<in> set ?y) \<or>
              ((i, guess ! i) \<notin> set ?g \<and> (guess ! i, i) \<notin> set ?y \<and> guess ! i \<in> ?r)"
  proof (intro allI impI)
    fix i assume i: "i < length guess"
    then have e: "(i, guess ! i) \<in> set ?e" by (simp add: enumerate_mem)
    have sw: "(guess ! i, i) \<in> set ?y \<longleftrightarrow> (i, guess ! i) \<in> set ?m"
      by force
    let ?p = "(i, guess ! i)"
    have tri: "is_fixed actual ?p \<or> is_misplaced guess actual ?p \<or> is_absent guess actual ?p"
      by (auto simp: is_fixed_def is_misplaced_def is_absent_def)
    have excl: "\<not> (is_fixed actual ?p \<and> is_misplaced guess actual ?p)"
      by (simp add: is_fixed_def is_misplaced_def)
    have ing: "?p \<in> set ?g \<longleftrightarrow> is_fixed actual ?p" using e by simp
    have inm: "?p \<in> set ?m \<longleftrightarrow> is_misplaced guess actual ?p" using e by simp
    have ab: "is_absent guess actual ?p \<Longrightarrow> guess ! i \<in> ?r"
      using e by force
    show "((i, guess ! i) \<in> set ?g \<and> (guess ! i, i) \<notin> set ?y) \<or>
          ((i, guess ! i) \<notin> set ?g \<and> (guess ! i, i) \<in> set ?y) \<or>
          ((i, guess ! i) \<notin> set ?g \<and> (guess ! i, i) \<notin> set ?y \<and> guess ! i \<in> ?r)"
      unfolding sw ing inm using tri excl ab by blast
  qed
  have cnt: "\<forall>L. length (filter (\<lambda>p. snd p = L) ?g) + length (filter (\<lambda>p. fst p = L) ?y)
                \<le> count_list actual L"
  proof
    fix L
    have "length (filter (\<lambda>p. fst p = L) ?y) = length (filter (\<lambda>p. snd p = L) ?m)"
      by (simp add: filter_map comp_def)
    then show "length (filter (\<lambda>p. snd p = L) ?g) + length (filter (\<lambda>p. fst p = L) ?y)
                 \<le> count_list actual L"
      using present_le_count[of guess actual L] assms by simp
  qed
  show ?thesis using fb d1 d2 mem cls cnt by blast
qed

theorem get_feedback_classifies_witness:
  "length ''apple'' = length ''stale'' \<and>
   (\<exists>g y r. get_feedback ''apple'' ''stale'' = Inr (g, y, r) \<and>
      distinct (map fst g) \<and> distinct (map snd y) \<and>
      (\<forall>i c. (i, c) \<in> set g \<or> (c, i) \<in> set y \<longrightarrow> i < length ''apple'' \<and> c = ''apple'' ! i) \<and>
      (\<forall>i < length ''apple''.
         ((i, ''apple'' ! i) \<in> set g \<and> (''apple'' ! i, i) \<notin> set y) \<or>
         ((i, ''apple'' ! i) \<notin> set g \<and> (''apple'' ! i, i) \<in> set y) \<or>
         ((i, ''apple'' ! i) \<notin> set g \<and> (''apple'' ! i, i) \<notin> set y \<and> ''apple'' ! i \<in> r)) \<and>
      (\<forall>L. length (filter (\<lambda>p. snd p = L) g) + length (filter (\<lambda>p. fst p = L) y)
             \<le> count_list ''stale'' L))"
proof (rule conjI)
  show len: "length ''apple'' = length ''stale''" by simp
  show "\<exists>g y r. get_feedback ''apple'' ''stale'' = Inr (g, y, r) \<and>
      distinct (map fst g) \<and> distinct (map snd y) \<and>
      (\<forall>i c. (i, c) \<in> set g \<or> (c, i) \<in> set y \<longrightarrow> i < length ''apple'' \<and> c = ''apple'' ! i) \<and>
      (\<forall>i < length ''apple''.
         ((i, ''apple'' ! i) \<in> set g \<and> (''apple'' ! i, i) \<notin> set y) \<or>
         ((i, ''apple'' ! i) \<notin> set g \<and> (''apple'' ! i, i) \<in> set y) \<or>
         ((i, ''apple'' ! i) \<notin> set g \<and> (''apple'' ! i, i) \<notin> set y \<and> ''apple'' ! i \<in> r)) \<and>
      (\<forall>L. length (filter (\<lambda>p. snd p = L) g) + length (filter (\<lambda>p. fst p = L) y)
             \<le> count_list ''stale'' L)"
    by (rule get_feedback_classifies[OF len])
qed

subsection \<open>Filtering\<close>

lemma check_green_Inr:
  "check_green w g = Inr b \<Longrightarrow> b = (\<forall>(pos, c) \<in> set g. pos < length w \<and> w ! pos = c)"
  by (induction w g rule: check_green.induct) (auto split: if_splits)

lemma check_yellow_Inr:
  "check_yellow w y = Inr b \<Longrightarrow>
   b = (\<forall>(c, pos) \<in> set y. c \<in> set w \<and> pos < length w \<and> w ! pos \<noteq> c)"
  by (induction w y rule: check_yellow.induct) (auto split: if_splits)

lemma check_green_total:
  "\<forall>pos \<in> fst ` set g. pos < length w \<Longrightarrow> \<exists>b. check_green w g = Inr b"
  by (induction w g rule: check_green.induct) auto

lemma check_yellow_total:
  "\<forall>pos \<in> snd ` set y. pos < length w \<Longrightarrow> \<exists>b. check_yellow w y = Inr b"
  by (induction w y rule: check_yellow.induct) auto

lemma check_gray_iff:
  "check_gray w g y r = (\<forall>c \<in> r. c \<notin> set w \<or> c \<in> snd ` set g \<or> c \<in> fst ` set y)"
  unfolding check_gray_def by force

lemma filter_words_loop_Inr:
  "filter_words_loop ws g y r acc = Inr out \<Longrightarrow> out = acc @ filter (keeps g y r) ws"
proof (induction ws arbitrary: acc)
  case Nil
  then show ?case by simp
next
  case (Cons w ws)
  from Cons.prems obtain b1 where b1: "check_green w g = Inr b1"
    by (cases "check_green w g") auto
  note g1 = check_green_Inr[OF b1]
  show ?case
  proof (cases b1)
    case False
    then show ?thesis using Cons b1 g1 by (auto simp: keeps_def)
  next
    case True
    from Cons.prems b1 True obtain b2 where b2: "check_yellow w y = Inr b2"
      by (cases "check_yellow w y") auto
    note y2 = check_yellow_Inr[OF b2]
    show ?thesis
      using Cons.prems b1 b2 True g1 y2 Cons.IH[of acc] Cons.IH[of "acc @ [w]"]
      by (cases b2; cases "check_gray w g y r") (auto simp: keeps_def check_gray_iff)
  qed
qed

lemma filter_words_loop_total:
  "\<forall>w \<in> set ws. in_range g y w \<Longrightarrow> \<exists>out. filter_words_loop ws g y r acc = Inr out"
proof (induction ws arbitrary: acc)
  case Nil
  then show ?case by simp
next
  case (Cons w ws)
  from Cons.prems obtain b1 b2 where "check_green w g = Inr b1" "check_yellow w y = Inr b2"
    using check_green_total[of g w] check_yellow_total[of y w] by (auto simp: in_range_def)
  then show ?case using Cons.IH Cons.prems by auto
qed

lemma filter_words_Inr: "filter_words ws g y r = Inr out \<Longrightarrow> out = filter (keeps g y r) ws"
  unfolding filter_words_def by (drule filter_words_loop_Inr) simp

lemma filter_words_total:
  "\<forall>w \<in> set ws. in_range g y w \<Longrightarrow> filter_words ws g y r = Inr (filter (keeps g y r) ws)"
  using filter_words_loop_total[of ws g y r "[]"] filter_words_Inr[of ws g y r]
  by (auto simp: filter_words_def)

lemma keeps_antitone:
  assumes "set g \<subseteq> set g'" "set y \<subseteq> set y'" "r \<subseteq> r'"
    and "\<forall>c \<in> r. c \<in> snd ` set g' \<union> fst ` set y' \<longrightarrow> c \<in> snd ` set g \<union> fst ` set y"
    and "keeps g' y' r' w"
  shows "keeps g y r w"
  using assms unfolding keeps_def by (auto; blast)

text \<open>
  C3. The claim: a word is retained iff every fixed entry holds, every misplaced letter
  occurs but not at its position, and every absent letter either does not occur in the
  word or occurs only at positions that fixed or misplaced entries of that letter
  account for. The third condition fails on the code: with a at position 0 fixed and a
  absent, the word "aabcd" is retained although its second a is at no accounted position.
\<close>

theorem filter_words_absent_counterexample:
  "filter_words [''aabcd''] [(0, CHR ''a'')] [] {CHR ''a''} = Inr [''aabcd''] \<and>
   \<not> spec_retained [(0, CHR ''a'')] [] {CHR ''a''} ''aabcd''"
proof
  show "filter_words [''aabcd''] [(0, CHR ''a'')] [] {CHR ''a''} = Inr [''aabcd'']"
    by (simp add: filter_words_def check_gray_def)
  have "(1::nat) < length ''aabcd'' \<and> ''aabcd'' ! 1 = CHR ''a'' \<and>
        (1, CHR ''a'') \<notin> set [(0::nat, CHR ''a'')]"
    by simp
  then show "\<not> spec_retained [(0, CHR ''a'')] [] {CHR ''a''} ''aabcd''"
    unfolding spec_retained_def by fastforce
qed

text \<open>
  C3, as amended: whenever \<^verbatim>\<open>filter_words\<close> returns, a word is retained iff it is a
  candidate, every fixed entry holds, every misplaced letter occurs in the word but not
  at its position, and every absent letter either does not occur in the word or is the
  letter of some fixed or some misplaced entry (wherever it occurs in the word). The
  function returns whenever no position of the constraints is out of range for a
  candidate.
\<close>

theorem filter_words_retains:
  "(filter_words words g y r = Inr out \<longrightarrow>
      (\<forall>w. w \<in> set out \<longleftrightarrow>
         w \<in> set words \<and>
         (\<forall>(pos, c) \<in> set g. pos < length w \<and> w ! pos = c) \<and>
         (\<forall>(c, pos) \<in> set y. c \<in> set w \<and> pos < length w \<and> w ! pos \<noteq> c) \<and>
         (\<forall>c \<in> r. c \<notin> set w \<or> c \<in> snd ` set g \<or> c \<in> fst ` set y))) \<and>
   ((\<forall>w \<in> set words. in_range g y w) \<longrightarrow> (\<exists>out'. filter_words words g y r = Inr out'))"
proof (intro conjI impI)
  assume "filter_words words g y r = Inr out"
  then have "out = filter (keeps g y r) words" by (rule filter_words_Inr)
  then show "\<forall>w. w \<in> set out \<longleftrightarrow>
         w \<in> set words \<and>
         (\<forall>(pos, c) \<in> set g. pos < length w \<and> w ! pos = c) \<and>
         (\<forall>(c, pos) \<in> set y. c \<in> set w \<and> pos < length w \<and> w ! pos \<noteq> c) \<and>
         (\<forall>c \<in> r. c \<notin> set w \<or> c \<in> snd ` set g \<or> c \<in> fst ` set y)"
    by (simp add: keeps_def)
next
  assume "\<forall>w \<in> set words. in_range g y w"
  then show "\<exists>out'. filter_words words g y r = Inr out'"
    by (simp add: filter_words_total)
qed

theorem filter_words_retains_witness:
  "filter_words [''stale'', ''apple''] [(4, CHR ''e'')] [(CHR ''a'', 0)] {CHR ''p''} = Inr [''stale''] \<and>
   in_range [(4, CHR ''e'')] [(CHR ''a'', 0)] ''stale'' \<and>
   in_range [(4, CHR ''e'')] [(CHR ''a'', 0)] ''apple'' \<and>
   (\<forall>w. w \<in> set [''stale''] \<longleftrightarrow>
         w \<in> set [''stale'', ''apple''] \<and>
         (\<forall>(pos, c) \<in> set [(4, CHR ''e'')]. pos < length w \<and> w ! pos = c) \<and>
         (\<forall>(c, pos) \<in> set [(CHR ''a'', 0)]. c \<in> set w \<and> pos < length w \<and> w ! pos \<noteq> c) \<and>
         (\<forall>c \<in> {CHR ''p''}. c \<notin> set w \<or> c \<in> snd ` set [(4::nat, CHR ''e'')] \<or>
                               c \<in> fst ` set [(CHR ''a'', 0::nat)])) \<and>
   (\<exists>out'. filter_words [''stale'', ''apple''] [(4, CHR ''e'')] [(CHR ''a'', 0)] {CHR ''p''} = Inr out')"
proof -
  have run: "filter_words [''stale'', ''apple''] [(4, CHR ''e'')] [(CHR ''a'', 0)] {CHR ''p''} = Inr [''stale'']"
    by (simp add: filter_words_def check_gray_def)
  have r1: "in_range [(4, CHR ''e'')] [(CHR ''a'', 0)] ''stale''" by (simp add: in_range_def)
  have r2: "in_range [(4, CHR ''e'')] [(CHR ''a'', 0)] ''apple''" by (simp add: in_range_def)
  have rng: "\<forall>w \<in> set [''stale'', ''apple'']. in_range [(4, CHR ''e'')] [(CHR ''a'', 0)] w"
    using r1 r2 by simp
  note inst = filter_words_retains[of "[''stale'', ''apple'']" "[(4, CHR ''e'')]" "[(CHR ''a'', 0)]"
        "{CHR ''p''}" "[''stale'']"]
  show ?thesis
    by (intro conjI run r1 r2 mp[OF conjunct1[OF inst] run] mp[OF conjunct2[OF inst] rng])
qed

text \<open>
  C4. Whenever \<^verbatim>\<open>filter_words\<close> returns, its output is a subsequence of its input (the
  retained words in their input order) and so is at most as long; the empty input
  gives the empty output; and the function returns whenever no position of the
  constraints is out of range for a candidate.
\<close>

theorem filter_words_subseq:
  "(filter_words words g y r = Inr out \<longrightarrow> subseq out words \<and> length out \<le> length words) \<and>
   filter_words [] g y r = Inr [] \<and>
   ((\<forall>w \<in> set words. in_range g y w) \<longrightarrow> (\<exists>out'. filter_words words g y r = Inr out'))"
proof (intro conjI impI)
  assume "filter_words words g y r = Inr out"
  then have out: "out = filter (keeps g y r) words" by (rule filter_words_Inr)
  show "subseq out words" unfolding out by simp
  show "length out \<le> length words" unfolding out by simp
next
  show "filter_words [] g y r = Inr []" by (simp add: filter_words_def)
next
  assume "\<forall>w \<in> set words. in_range g y w"
  then show "\<exists>out'. filter_words words g y r = Inr out'"
    by (simp add: filter_words_total)
qed

theorem filter_words_subseq_witness:
  "filter_words [''stale'', ''apple'', ''crane''] [(4, CHR ''e'')] [] {CHR ''p''} = Inr [''stale'', ''crane''] \<and>
   in_range [(4, CHR ''e'')] [] ''stale'' \<and>
   in_range [(4, CHR ''e'')] [] ''apple'' \<and>
   in_range [(4, CHR ''e'')] [] ''crane'' \<and>
   subseq [''stale'', ''crane''] [''stale'', ''apple'', ''crane''] \<and>
   length [''stale'', ''crane''] \<le> length [''stale'', ''apple'', ''crane''] \<and>
   (\<exists>out'. filter_words [''stale'', ''apple'', ''crane''] [(4, CHR ''e'')] [] {CHR ''p''} = Inr out')"
proof -
  have run: "filter_words [''stale'', ''apple'', ''crane''] [(4, CHR ''e'')] [] {CHR ''p''} = Inr [''stale'', ''crane'']"
    by (simp add: filter_words_def check_gray_def)
  have r1: "in_range [(4, CHR ''e'')] [] ''stale''" by (simp add: in_range_def)
  have r2: "in_range [(4, CHR ''e'')] [] ''apple''" by (simp add: in_range_def)
  have r3: "in_range [(4, CHR ''e'')] [] ''crane''" by (simp add: in_range_def)
  have rng: "\<forall>w \<in> set [''stale'', ''apple'', ''crane'']. in_range [(4, CHR ''e'')] [] w"
    using r1 r2 r3 by simp
  note inst = filter_words_subseq[of "[''stale'', ''apple'', ''crane'']" "[(4, CHR ''e'')]" "[]"
        "{CHR ''p''}" "[''stale'', ''crane'']"]
  show ?thesis
    by (intro conjI run r1 r2 r3 conjunct1[OF mp[OF conjunct1[OF inst] run]]
          conjunct2[OF mp[OF conjunct1[OF inst] run]] mp[OF conjunct2[OF conjunct2[OF inst]] rng])
qed

text \<open>
  C5. The claim: larger constraints never give a larger result. It fails on the code:
  with a absent and nothing else known the word "apple" is rejected; adding the fixed
  entry (0, a) exempts the letter a from the absent check and "apple" is retained.
\<close>

theorem filter_words_superset_counterexample:
  "set [] \<subseteq> set [(0::nat, CHR ''a'')] \<and>
   filter_words [''apple''] [] [] {CHR ''a''} = Inr [] \<and>
   filter_words [''apple''] [(0, CHR ''a'')] [] {CHR ''a''} = Inr [''apple''] \<and>
   \<not> length [''apple''] \<le> length ([] :: string list)"
  by (simp add: filter_words_def check_gray_def)

text \<open>
  C5, as amended: when the second constraint triple contains the first componentwise,
  and every letter of the first absent set that is the letter of a fixed or misplaced
  entry of the second triple is already the letter of a fixed or misplaced entry of
  the first, then (both calls returning) the result under the larger constraints is a
  subsequence of, and at most as long as, the result under the smaller ones.
\<close>

theorem filter_words_antitone:
  assumes "set g \<subseteq> set g'" "set y \<subseteq> set y'" "r \<subseteq> r'"
    and "\<forall>c \<in> r. c \<in> snd ` set g' \<union> fst ` set y' \<longrightarrow> c \<in> snd ` set g \<union> fst ` set y"
    and "filter_words words g y r = Inr out"
    and "filter_words words g' y' r' = Inr out'"
  shows "length out' \<le> length out \<and> subseq out' out"
proof -
  have out: "out = filter (keeps g y r) words" using assms(5) by (rule filter_words_Inr)
  have out': "out' = filter (keeps g' y' r') words" using assms(6) by (rule filter_words_Inr)
  have "out' = filter (keeps g' y' r') out"
    unfolding out out' filter_filter
    by (rule filter_cong) (use keeps_antitone[OF assms(1-4)] in auto)
  then have "subseq out' out" by (metis subseq_filter_left)
  moreover have "length out' \<le> length out"
    using \<open>out' = filter (keeps g' y' r') out\<close> by (metis length_filter_le)
  ultimately show ?thesis by simp
qed

theorem filter_words_antitone_witness:
  "set [(4::nat, CHR ''e'')] \<subseteq> set [(4, CHR ''e'')] \<and>
   set [] \<subseteq> set [(CHR ''t'', 0::nat)] \<and>
   {CHR ''p''} \<subseteq> {CHR ''p'', CHR ''x''} \<and>
   CHR ''p'' \<notin> snd ` set [(4::nat, CHR ''e'')] \<union> fst ` set [(CHR ''t'', 0::nat)] \<and>
   filter_words [''stale'', ''apple'', ''crane''] [(4, CHR ''e'')] [] {CHR ''p''} = Inr [''stale'', ''crane''] \<and>
   filter_words [''stale'', ''apple'', ''crane''] [(4, CHR ''e'')] [(CHR ''t'', 0)] {CHR ''p'', CHR ''x''} = Inr [''stale''] \<and>
   length [''stale''] \<le> length [''stale'', ''crane''] \<and> subseq [''stale''] [''stale'', ''crane'']"
proof -
  have h1: "set [(4::nat, CHR ''e'')] \<subseteq> set [(4, CHR ''e'')]" by simp
  have h2: "set [] \<subseteq> set [(CHR ''t'', 0::nat)]" by simp
  have h3: "{CHR ''p''} \<subseteq> {CHR ''p'', CHR ''x''}" by simp
  have p: "CHR ''p'' \<notin> snd ` set [(4::nat, CHR ''e'')] \<union> fst ` set [(CHR ''t'', 0::nat)]" by simp
  have h4: "\<forall>c \<in> {CHR ''p''}. c \<in> snd ` set [(4::nat, CHR ''e'')] \<union> fst ` set [(CHR ''t'', 0::nat)]
        \<longrightarrow> c \<in> snd ` set [(4::nat, CHR ''e'')] \<union> fst ` set ([] :: (char \<times> nat) list)"
    using p by simp
  have h5: "filter_words [''stale'', ''apple'', ''crane''] [(4, CHR ''e'')] [] {CHR ''p''} = Inr [''stale'', ''crane'']"
    by (simp add: filter_words_def check_gray_def)
  have h6: "filter_words [''stale'', ''apple'', ''crane''] [(4, CHR ''e'')] [(CHR ''t'', 0)] {CHR ''p'', CHR ''x''} = Inr [''stale'']"
    by (simp add: filter_words_def check_gray_def)
  show ?thesis
    by (intro conjI h1 h2 h3 p h5 h6
          conjunct1[OF filter_words_antitone[OF h1 h2 h3 h4 h5 h6]]
          conjunct2[OF filter_words_antitone[OF h1 h2 h3 h4 h5 h6]])
qed

subsection \<open>Float arithmetic\<close>

lemma pow2_powr: "pow2 e = 2 powr (of_int e)"
proof (cases "0 \<le> e")
  case True
  then have "of_int e = real (nat e)" by simp
  then show ?thesis using True by (simp add: pow2_def powr_realpow del: of_nat_nat)
next
  case False
  then have "of_int e = - real (nat (- e))" by simp
  then show ?thesis
    using False by (simp add: pow2_def powr_minus powr_realpow divide_inverse del: of_nat_nat)
qed

lemma round_double_at:
  assumes "pow2 e \<le> \<bar>x\<bar>" and "\<bar>x\<bar> < pow2 (e + 1)" and "- 1022 \<le> e"
  shows "round_double x = of_int (round_even (x / pow2 (e - 52))) * pow2 (e - 52)"
proof -
  have "0 < pow2 e" by (simp add: pow2_powr)
  then have pos: "0 < \<bar>x\<bar>" using assms(1) by linarith
  have "\<lfloor>log 2 \<bar>x\<bar>\<rfloor> = e"
    using assms(1,2) pos by (simp add: floor_log_eq_powr_iff pow2_powr)
  then show ?thesis using pos assms(3) by (simp add: round_double_def Let_def max_def)
qed

lemma round_double_0: "round_double 0 = 0"
  by (simp add: round_double_def)

lemma round_double_1: "round_double 1 = 1"
  by (subst round_double_at[where e = 0]) (simp_all add: pow2_def round_even_def Let_def)

lemma float_mul_0: "float_mul x 0 = 0"
  by (simp add: float_mul_def round_double_0)

lemma float_add_0_0: "float_add 0 0 = 0"
  by (simp add: float_add_def round_double_0)

lemma float_sum_zeros: "\<forall>x \<in> set xs. x = 0 \<Longrightarrow> float_sum xs = 0"
proof -
  have "\<forall>x \<in> set xs. x = 0 \<Longrightarrow> foldl float_add 0 xs = 0"
    by (induction xs) (simp_all add: float_add_0_0)
  then show "\<forall>x \<in> set xs. x = 0 \<Longrightarrow> float_sum xs = 0" by (simp add: float_sum_def)
qed

text \<open>Values of \<open>round_double\<close> that the concrete runs below meet.\<close>

lemma round_double_val_1: "round_double (3602879701896397 / 36028797018963968) = 3602879701896397 / 36028797018963968"
  by (subst round_double_at[where e = "-4"]) (simp_all add: pow2_def round_even_def Let_def)

lemma round_double_val_2: "round_double (3 / 16) = 3 / 16"
  by (subst round_double_at[where e = "-3"]) (simp_all add: pow2_def round_even_def Let_def)

lemma round_double_val_3: "round_double (3602879701896397 / 18014398509481984) = 3602879701896397 / 18014398509481984"
  by (subst round_double_at[where e = "-3"]) (simp_all add: pow2_def round_even_def Let_def)

lemma round_double_val_4: "round_double (1 / 4) = 1 / 4"
  by (subst round_double_at[where e = "-2"]) (simp_all add: pow2_def round_even_def Let_def)

lemma round_double_val_5: "round_double (10808639105689191 / 36028797018963968) = 1351079888211149 / 4503599627370496"
  by (subst round_double_at[where e = "-2"]) (simp_all add: pow2_def round_even_def Let_def)

lemma round_double_val_6: "round_double (1351079888211149 / 4503599627370496) = 1351079888211149 / 4503599627370496"
  by (subst round_double_at[where e = "-2"]) (simp_all add: pow2_def round_even_def Let_def)

lemma round_double_val_7: "round_double (1 / 2) = 1 / 2"
  by (subst round_double_at[where e = "-1"]) (simp_all add: pow2_def round_even_def Let_def)

lemma round_double_val_8: "round_double (2476979795053773 / 4503599627370496) = 2476979795053773 / 4503599627370496"
  by (subst round_double_at[where e = "-1"]) (simp_all add: pow2_def round_even_def Let_def)

lemma round_double_val_9: "round_double (5404319552844595 / 9007199254740992) = 5404319552844595 / 9007199254740992"
  by (subst round_double_at[where e = "-1"]) (simp_all add: pow2_def round_even_def Let_def)

lemma round_double_val_10: "round_double (21617278211378381 / 36028797018963968) = 5404319552844595 / 9007199254740992"
  by (subst round_double_at[where e = "-1"]) (simp_all add: pow2_def round_even_def Let_def)

lemma round_double_val_11: "round_double (10808639105689191 / 18014398509481984) = 1351079888211149 / 2251799813685248"
  by (subst round_double_at[where e = "-1"]) (simp_all add: pow2_def round_even_def Let_def)

lemma round_double_val_12: "round_double (1351079888211149 / 2251799813685248) = 1351079888211149 / 2251799813685248"
  by (subst round_double_at[where e = "-1"]) (simp_all add: pow2_def round_even_def Let_def)

lemma round_double_val_13: "round_double (26924898748847594773366786972713 / 40564819207303340847894502572032) = 2989264252667167 / 4503599627370496"
  by (subst round_double_at[where e = "-1"]) (simp_all add: pow2_def round_even_def Let_def)

lemma round_double_val_14: "round_double (3321404725185741 / 4503599627370496) = 3321404725185741 / 4503599627370496"
  by (subst round_double_at[where e = "-1"]) (simp_all add: pow2_def round_even_def Let_def)

lemmas round_double_values =
  round_double_0 round_double_1 round_double_val_1 round_double_val_2 round_double_val_3
  round_double_val_4 round_double_val_5 round_double_val_6 round_double_val_7 round_double_val_8
  round_double_val_9 round_double_val_10 round_double_val_11 round_double_val_12
  round_double_val_13 round_double_val_14

subsection \<open>Scoring\<close>

lemma take2_drop: "Suc i < length w \<Longrightarrow> take 2 (drop i w) = [w ! i, w ! (i + 1)]"
  by (simp add: take_Suc_conv_app_nth numeral_2_eq_2 take_Suc Cons_nth_drop_Suc[symmetric] hd_drop_conv_nth)

lemma take3_drop: "Suc (Suc i) < length w \<Longrightarrow> take 3 (drop i w) = [w ! i, w ! (i + 1), w ! (i + 2)]"
proof -
  assume a: "Suc (Suc i) < length w"
  then have "drop i w = w ! i # w ! Suc i # w ! Suc (Suc i) # drop (Suc (Suc (Suc i))) w"
    by (simp add: Cons_nth_drop_Suc Suc_lessD)
  then show ?thesis by (simp add: numeral_3_eq_3)
qed

lemma card_lt_iff_not_distinct: "card (set w) < length w \<longleftrightarrow> \<not> distinct w"
proof
  assume "card (set w) < length w"
  then show "\<not> distinct w" using distinct_card[of w] by auto
next
  assume "\<not> distinct w"
  then have "card (set w) \<noteq> length w" using card_distinct[of w] by blast
  then show "card (set w) < length w" using card_length[of w] by linarith
qed

lemma bigram_items:
  assumes "length w = 5"
  shows "map (\<lambda>i. get_or_0 bp (take 2 (drop i w))) [0..<4] =
         map (\<lambda>i. get_or_0 bp [w ! i, w ! (i + 1)]) [0..<4]"
  by (rule map_cong[OF refl]) (use assms in \<open>simp add: take2_drop\<close>)

lemma trigram_items:
  assumes "length w = 5"
  shows "map (\<lambda>i. get_or_0 tp (take 3 (drop i w))) [0..<3] =
         map (\<lambda>i. get_or_0 tp [w ! i, w ! (i + 1), w ! (i + 2)]) [0..<3]"
  by (rule map_cong[OF refl]) (use assms in \<open>simp add: take3_drop\<close>)

lemma count_list_distinct: "distinct xs \<Longrightarrow> count_list xs c = (if c \<in> set xs then 1 else 0)"
  by (induction xs) auto

text \<open>
  C6. For a five-letter word, at least five position tables and weights that hold the
  five keys, \<^verbatim>\<open>score_word\<close> returns the repeat penalty (when the letters of the word are
  not all distinct, 1 otherwise) times the weighted sum of: the letter table summed
  over the distinct letters of the word, each once, in the order the set is iterated;
  the bigram table over its four contiguous bigrams; the trigram table over its three
  contiguous trigrams; and the position tables over its five positions. A key that a
  table does not hold contributes 0. The products and sums are those of float
  arithmetic, each rounded, taken in the order of the code.
\<close>

theorem score_word_formula:
  assumes "length word = 5" and "5 \<le> length pos_probs"
    and "weights ''letter'' = Some w_letter" and "weights ''bigram'' = Some w_bigram"
    and "weights ''trigram'' = Some w_trigram" and "weights ''position'' = Some w_position"
    and "weights ''repeat_penalty'' = Some penalty"
    and "distinct (set_order word)" and "set (set_order word) = set word"
  shows "score_word set_order word letter_probs bigram_probs trigram_probs pos_probs weights =
           Inr (float_mul (if distinct word then 1 else penalty)
                 (float_add
                   (float_add
                     (float_add
                       (float_mul w_letter
                          (float_sum (map (\<lambda>c. get_or_0 letter_probs c) (set_order word))))
                       (float_mul w_bigram
                          (float_sum (map (\<lambda>i. get_or_0 bigram_probs [word ! i, word ! (i + 1)])
                                       [0..<4]))))
                     (float_mul w_trigram
                        (float_sum
                           (map (\<lambda>i. get_or_0 trigram_probs [word ! i, word ! (i + 1), word ! (i + 2)])
                              [0..<3]))))
                   (float_mul w_position
                      (float_sum (map (\<lambda>i. get_or_0 (pos_probs ! i) (word ! i)) [0..<5]))))) \<and>
         (\<forall>c. count_list (set_order word) c = (if c \<in> set word then 1 else 0)) \<and>
         (\<forall>c. letter_probs c = None \<longrightarrow> get_or_0 letter_probs c = 0) \<and>
         (\<forall>s. bigram_probs s = None \<longrightarrow> get_or_0 bigram_probs s = 0) \<and>
         (\<forall>s. trigram_probs s = None \<longrightarrow> get_or_0 trigram_probs s = 0) \<and>
         (\<forall>i c. (pos_probs ! i) c = None \<longrightarrow> get_or_0 (pos_probs ! i) c = 0)"
proof -
  have pen: "card (set word) < 5 \<longleftrightarrow> \<not> distinct word"
    using card_lt_iff_not_distinct[of word] assms(1) by simp
  have val: "score_word set_order word letter_probs bigram_probs trigram_probs pos_probs weights =
           Inr (float_mul (if distinct word then 1 else penalty)
                 (float_add
                   (float_add
                     (float_add
                       (float_mul w_letter
                          (float_sum (map (\<lambda>c. get_or_0 letter_probs c) (set_order word))))
                       (float_mul w_bigram
                          (float_sum (map (\<lambda>i. get_or_0 bigram_probs [word ! i, word ! (i + 1)])
                                       [0..<4]))))
                     (float_mul w_trigram
                        (float_sum
                           (map (\<lambda>i. get_or_0 trigram_probs [word ! i, word ! (i + 1), word ! (i + 2)])
                              [0..<3]))))
                   (float_mul w_position
                      (float_sum (map (\<lambda>i. get_or_0 (pos_probs ! i) (word ! i)) [0..<5])))))"
    unfolding score_word_def Let_def subscript_def pen
      bigram_items[OF assms(1)] trigram_items[OF assms(1)]
    using assms(1-7) by simp
  have cnt: "\<forall>c. count_list (set_order word) c = (if c \<in> set word then 1 else 0)"
    using count_list_distinct[OF assms(8)] assms(9) by simp
  show ?thesis using val cnt by (simp add: get_or_0_def)
qed

theorem score_word_formula_witness:
  "length ''apple'' = 5 \<and>
   5 \<le> length (replicate 5 [CHR ''e'' \<mapsto> (1/4::real)]) \<and>
   default_weights ''letter'' = Some 1 \<and> default_weights ''bigram'' = Some (1/2) \<and>
   default_weights ''trigram'' = Some (1/4) \<and> default_weights ''position'' = Some (3/4) \<and>
   default_weights ''repeat_penalty'' = Some (8106479329266893 / 9007199254740992) \<and>
   distinct (order_a ''apple'') \<and> set (order_a ''apple'') = set ''apple'' \<and>
   score_word order_a ''apple''
     [CHR ''a'' \<mapsto> 3602879701896397 / 36028797018963968,
      CHR ''p'' \<mapsto> 3602879701896397 / 18014398509481984]
     [''pp'' \<mapsto> 1/2] Map.empty (replicate 5 [CHR ''e'' \<mapsto> 1/4]) default_weights =
     Inr (2989264252667167 / 4503599627370496)"
proof -
  have h1: "length ''apple'' = 5" by simp
  have h2: "5 \<le> length (replicate 5 [CHR ''e'' \<mapsto> (1/4::real)])" by simp
  have h3: "default_weights ''letter'' = Some 1" by (simp add: default_weights_def)
  have h4: "default_weights ''bigram'' = Some (1/2)" by (simp add: default_weights_def)
  have h5: "default_weights ''trigram'' = Some (1/4)" by (simp add: default_weights_def)
  have h6: "default_weights ''position'' = Some (3/4)" by (simp add: default_weights_def)
  have h7: "default_weights ''repeat_penalty'' = Some (8106479329266893 / 9007199254740992)"
    by (simp add: default_weights_def)
  have h8: "distinct (order_a ''apple'')" by (simp add: order_a_def)
  have h9: "set (order_a ''apple'') = set ''apple''" by (auto simp add: order_a_def)
  note inst = conjunct1[OF score_word_formula[where set_order = order_a and word = "''apple''"
        and weights = default_weights
        and letter_probs = "[CHR ''a'' \<mapsto> 3602879701896397 / 36028797018963968,
             CHR ''p'' \<mapsto> 3602879701896397 / 18014398509481984]"
        and bigram_probs = "[''pp'' \<mapsto> 1/2]" and trigram_probs = Map.empty,
        OF h1 h2 h3 h4 h5 h6 h7 h8 h9]]
  have val: "score_word order_a ''apple''
     [CHR ''a'' \<mapsto> 3602879701896397 / 36028797018963968,
      CHR ''p'' \<mapsto> 3602879701896397 / 18014398509481984]
     [''pp'' \<mapsto> 1/2] Map.empty (replicate 5 [CHR ''e'' \<mapsto> 1/4]) default_weights =
     Inr (2989264252667167 / 4503599627370496)"
    unfolding inst
    by (simp add: order_a_def get_or_0_def upt_rec float_sum_def float_add_def float_mul_def
        round_double_values)
  show ?thesis by (intro conjI h1 h2 h3 h4 h5 h6 h7 h8 h9 val)
qed

subsection \<open>Simulation\<close>

lemma loop_body_next:
  assumes "loop_body so T W lp bp tp pp st = Inr (Inr st')"
  shows "attempts st' = attempts st + 1 \<and> attempts st' < max_attempts \<and>
         (\<exists>g. guess_log st' = guess_log st @ [(g, length (possible_words st))])"
  using assms
  by (auto simp: loop_body_def Let_def split: if_splits sum.splits list.splits)

lemma loop_body_result:
  assumes "loop_body so T W lp bp tp pp st = Inr (Inl (oc, a, gl))"
  shows "(oc = NoPossibleWords \<and> a = None \<and> gl = guess_log st \<and> possible_words st = []) \<or>
         (oc = NoNewCandidates \<and> a = None \<and> gl = guess_log st) \<or>
         (oc = Solved \<and> a = Some (attempts st + 1) \<and>
            gl = guess_log st @ [(T, length (possible_words st))]) \<or>
         (oc = GaveUp \<and> a = None \<and> max_attempts \<le> attempts st + 1 \<and>
            (\<exists>g. gl = guess_log st @ [(g, length (possible_words st))]))"
  using assms
  by (auto simp: loop_body_def Let_def split: if_splits sum.splits list.splits)

lemma simulate_loop_unfold:
  "simulate_loop so T W lp bp tp pp st =
     (case loop_body so T W lp bp tp pp st of
        Inl e \<Rightarrow> Inl e
      | Inr (Inl res) \<Rightarrow> Inr res
      | Inr (Inr st') \<Rightarrow> simulate_loop so T W lp bp tp pp st')"
  by (rule simulate_loop.simps)

lemma passes_enough:
  "0 < n \<Longrightarrow> max_attempts \<le> attempts st + n \<Longrightarrow>
   simulate_loop_passes n so T W lp bp tp pp st = Some (simulate_loop so T W lp bp tp pp st)"
proof (induction n arbitrary: st)
  case 0
  then show ?case by simp
next
  case (Suc n)
  show ?case
  proof (cases "loop_body so T W lp bp tp pp st")
    case (Inl e)
    then show ?thesis by (subst simulate_loop_unfold) simp
  next
    case (Inr x)
    show ?thesis
    proof (cases x)
      case (Inl res)
      then show ?thesis using Inr by (subst simulate_loop_unfold) simp
    next
      case (Inr st')
      with \<open>loop_body so T W lp bp tp pp st = Inr x\<close>
      have lb: "loop_body so T W lp bp tp pp st = Inr (Inr st')" by simp
      from loop_body_next[OF lb] have a: "attempts st' = attempts st + 1" "attempts st' < max_attempts"
        by auto
      have "0 < n" "max_attempts \<le> attempts st' + n" using a Suc.prems by auto
      from Suc.IH[OF this] show ?thesis using lb by (subst simulate_loop_unfold) simp
    qed
  qed
qed

lemma simulate_loop_result:
  "attempts st = length (guess_log st) \<Longrightarrow> attempts st < max_attempts \<Longrightarrow>
   simulate_loop so T W lp bp tp pp st = Inr (oc, a, gl) \<Longrightarrow>
   length gl \<le> max_attempts \<and> (a \<noteq> None \<longrightarrow> oc = Solved) \<and>
   (oc = Solved \<longrightarrow> gl \<noteq> [] \<and> fst (last gl) = T \<and> a = Some (length gl))"
proof (induction so T W lp bp tp pp st rule: simulate_loop.induct)
  case (1 so T W lp bp tp pp st)
  show ?case
  proof (cases "loop_body so T W lp bp tp pp st")
    case (Inl e)
    then show ?thesis using "1.prems"(3) by (subst (asm) simulate_loop_unfold) simp
  next
    case (Inr x)
    show ?thesis
    proof (cases x)
      case (Inl res)
      with Inr have lb: "loop_body so T W lp bp tp pp st = Inr (Inl (oc, a, gl))"
        using "1.prems"(3) by (subst (asm) simulate_loop_unfold) simp
      from loop_body_result[OF lb] show ?thesis using "1.prems"(1,2) by auto
    next
      case st': (Inr st')
      with Inr have lb: "loop_body so T W lp bp tp pp st = Inr (Inr st')" by simp
      from loop_body_next[OF lb] have a: "attempts st' = length (guess_log st')" "attempts st' < max_attempts"
        using "1.prems"(1) by auto
      have r: "simulate_loop so T W lp bp tp pp st' = Inr (oc, a, gl)"
        using "1.prems"(3) lb by (subst (asm) simulate_loop_unfold) simp
      show ?thesis using "1.IH"[OF Inr st' a r] .
    qed
  qed
qed

lemma normalise_Nil: "normalise [] = Map.empty"
  by (simp add: normalise_def)

lemma get_or_0_empty: "get_or_0 Map.empty k = 0"
  by (simp add: get_or_0_def)

lemma score_word_empty_tables:
  assumes "5 \<le> length word"
    and "weights ''letter'' = Some w_letter" and "weights ''bigram'' = Some w_bigram"
    and "weights ''trigram'' = Some w_trigram" and "weights ''position'' = Some w_position"
    and "weights ''repeat_penalty'' = Some penalty"
  shows "score_word set_order word Map.empty Map.empty Map.empty (replicate 5 Map.empty) weights = Inr 0"
proof -
  have l: "float_sum (map (\<lambda>c. get_or_0 Map.empty c) (set_order word)) = 0"
    by (rule float_sum_zeros) (simp add: get_or_0_empty)
  have b: "float_sum (map (\<lambda>i. get_or_0 Map.empty (take 2 (drop i word))) [0..<4]) = 0"
    by (rule float_sum_zeros) (simp add: get_or_0_empty)
  have t: "float_sum (map (\<lambda>i. get_or_0 Map.empty (take 3 (drop i word))) [0..<3]) = 0"
    by (rule float_sum_zeros) (simp add: get_or_0_empty)
  have p: "float_sum (map (\<lambda>i. get_or_0 (replicate 5 Map.empty ! i) (word ! i)) [0..<5]) = 0"
    by (rule float_sum_zeros) (simp add: get_or_0_empty)
  show ?thesis
    unfolding score_word_def Let_def subscript_def l b t p
    using assms by (simp add: float_mul_0 float_add_0_0)
qed

lemma keys_of_Inr:
  "keys_of key xs = Inr ks \<Longrightarrow>
   ks = map (key_value key) xs \<and> (\<forall>x \<in> set xs. key x = Inr (key_value key x))"
  by (induction xs arbitrary: ks) (auto simp: key_value_def split: sum.splits)

lemma insort_key_map:
  "insort_key g (h x) (map h ys) = map h (insort_key (\<lambda>y. g (h y)) x ys)"
  by (induction ys) auto

lemma sort_key_map:
  "sort_key g (map h xs) = map h (sort_key (\<lambda>y. g (h y)) xs)"
  by (induction xs) (auto simp: insort_key_map)

lemma sorted_reverse_Inr:
  assumes "sorted_reverse key xs = Inr ys"
  shows "ys = sort_key (\<lambda>x. - key_value key x) xs \<and> (\<forall>x \<in> set xs. key x = Inr (key_value key x))"
proof -
  from assms obtain ks where ks: "keys_of key xs = Inr ks"
    and ys: "ys = map fst (sort_key (\<lambda>p. - snd p) (zip xs ks))"
    by (auto simp: sorted_reverse_def split: sum.splits)
  from keys_of_Inr[OF ks] have k: "ks = map (key_value key) xs"
    and v: "\<forall>x \<in> set xs. key x = Inr (key_value key x)" by auto
  have "zip xs ks = map (\<lambda>x. (x, key_value key x)) xs"
    unfolding k by (induction xs) auto
  then have "ys = map fst (map (\<lambda>x. (x, key_value key x)) (sort_key (\<lambda>x. - key_value key x) xs))"
    unfolding ys by (simp add: sort_key_map)
  then show ?thesis using v by (simp add: comp_def)
qed

lemma sort_key_head:
  assumes "sort_key f zs = g # rest"
  shows "\<exists>us vs. zs = us @ g # vs \<and> (\<forall>u \<in> set us. f g < f u) \<and> (\<forall>v \<in> set vs. f g \<le> f v)"
proof -
  have srt: "sorted (map f (g # rest))" using assms sorted_sort_key[of f zs] by simp
  have set_eq: "set zs = set (g # rest)" using assms set_sort[of f zs] by simp
  have le: "\<forall>z \<in> set zs. f g \<le> f z" using srt set_eq by auto
  have "filter (\<lambda>y. f y = f g) zs = filter (\<lambda>y. f y = f g) (g # rest)"
    using sort_key_stable[of f "f g" zs] assms by simp
  then have "filter (\<lambda>y. f y = f g) zs = g # filter (\<lambda>y. f y = f g) rest" by simp
  then obtain us vs where d: "zs = us @ g # vs" and u: "\<forall>u \<in> set us. f u \<noteq> f g"
    unfolding filter_eq_Cons_iff by blast
  have "\<forall>u \<in> set us. f g < f u"
  proof
    fix x assume x: "x \<in> set us"
    then have "f g \<le> f x" using le d by simp
    moreover have "f x \<noteq> f g" using u x by simp
    ultimately show "f g < f x" by simp
  qed
  moreover have "\<forall>v \<in> set vs. f g \<le> f v" using le d by simp
  ultimately show ?thesis using d by blast
qed

lemma first_best_unique:
  fixes s :: "'a \<Rightarrow> real"
  assumes "us @ g # vs = us' @ g' # vs'"
    and "\<forall>u \<in> set us. s u < s g" and "\<forall>v \<in> set vs. s v \<le> s g"
    and "\<forall>u \<in> set us'. s u < s g'" and "\<forall>v \<in> set vs'. s v \<le> s g'"
  shows "us = us' \<and> g = g' \<and> vs = vs'"
proof -
  from assms(1) consider
    (eq) "us = us'" "g # vs = g' # vs'" |
    (left) ws where "us' = us @ g # ws" |
    (right) ws where "us = us' @ g' # ws"
    by (auto simp: append_eq_append_conv2 Cons_eq_append_conv append_eq_Cons_conv)
  then show ?thesis
  proof cases
    case eq
    then show ?thesis by simp
  next
    case left
    then have "s g < s g'" using assms(4) by simp
    moreover have "g' \<in> set vs" using assms(1) left by auto
    ultimately show ?thesis using assms(3) by fastforce
  next
    case right
    then have "s g' < s g" using assms(2) by simp
    moreover have "g \<in> set vs'" using assms(1) right by auto
    ultimately show ?thesis using assms(5) by fastforce
  qed
qed

lemma scored_list_first_best:
  assumes "scored_list key possible used = Inr (g # rest)"
  shows "first_best key used possible g"
proof -
  from assms obtain ranked where r: "sorted_reverse key possible = Inr ranked"
    and f: "filter (\<lambda>w. w \<notin> used) ranked = g # rest"
    by (auto simp: scored_list_def split: sum.splits)
  let ?f = "\<lambda>x. - key_value key x"
  from sorted_reverse_Inr[OF r] have ranked: "ranked = sort_key ?f possible"
    and v: "\<forall>x \<in> set possible. key x = Inr (key_value key x)" by auto
  have "sort_key ?f (filter (\<lambda>w. w \<notin> used) possible) = g # rest"
    using f unfolding ranked by (simp add: filter_sort)
  from sort_key_head[OF this] obtain us vs where
    d: "filter (\<lambda>w. w \<notin> used) possible = us @ g # vs"
    and u: "\<forall>u \<in> set us. ?f g < ?f u" and w: "\<forall>v \<in> set vs. ?f g \<le> ?f v" by blast
  have sub: "set us \<subseteq> set possible" "set vs \<subseteq> set possible" "g \<in> set possible"
  proof -
    have "set (us @ g # vs) \<subseteq> set possible"
      unfolding d[symmetric] by (rule filter_is_subset)
    then show "set us \<subseteq> set possible" "set vs \<subseteq> set possible" "g \<in> set possible"
      by auto
  qed
  show ?thesis unfolding first_best_def
  proof (intro exI conjI)
    show "filter (\<lambda>w. w \<notin> used) possible = us @ g # vs" by (rule d)
    show "key g = Inr (key_value key g)" using v sub by blast
    show "\<forall>u \<in> set us. \<exists>k. key u = Inr k \<and> k < key_value key g" using u v sub by fastforce
    show "\<forall>v \<in> set vs. \<exists>k. key v = Inr k \<and> k \<le> key_value key g" using w v sub by fastforce
  qed
qed

lemma first_best_same:
  assumes "first_best key used possible g" and "first_best key used possible g'"
  shows "g' = g"
proof -
  from assms(1) obtain us vs s where a: "filter (\<lambda>w. w \<notin> used) possible = us @ g # vs"
    "key g = Inr s" "\<forall>u \<in> set us. \<exists>k. key u = Inr k \<and> k < s" "\<forall>v \<in> set vs. \<exists>k. key v = Inr k \<and> k \<le> s"
    unfolding first_best_def by blast
  from assms(2) obtain us' vs' s' where b: "filter (\<lambda>w. w \<notin> used) possible = us' @ g' # vs'"
    "key g' = Inr s'" "\<forall>u \<in> set us'. \<exists>k. key u = Inr k \<and> k < s'" "\<forall>v \<in> set vs'. \<exists>k. key v = Inr k \<and> k \<le> s'"
    unfolding first_best_def by blast
  have 1: "us @ g # vs = us' @ g' # vs'" using a(1) b(1) by simp
  have 2: "\<forall>u \<in> set us. key_value key u < key_value key g" using a(2,3) by (fastforce simp: key_value_def)
  have 3: "\<forall>v \<in> set vs. key_value key v \<le> key_value key g" using a(2,4) by (fastforce simp: key_value_def)
  have 4: "\<forall>u \<in> set us'. key_value key u < key_value key g'" using b(2,3) by (fastforce simp: key_value_def)
  have 5: "\<forall>v \<in> set vs'. key_value key v \<le> key_value key g'" using b(2,4) by (fastforce simp: key_value_def)
  from first_best_unique[OF 1 2 3 4 5] show ?thesis by simp
qed

lemma loop_body_guess:
  assumes "loop_body so T W lp bp tp pp st = Inr r"
  shows "log_after r = guess_log st \<or>
         (\<exists>g rest. scored_list (\<lambda>w. score_word so w lp bp tp pp W) (possible_words st) (used_guesses st)
                      = Inr (g # rest) \<and>
                    log_after r = guess_log st @ [(g, length (possible_words st))])"
  using assms
  by (auto simp: loop_body_def Let_def split: if_splits sum.splits list.splits)

lemma loop_body_pool:
  assumes "loop_body so T W lp bp tp pp st = Inr (Inr st')"
  shows "subseq (possible_words st') (possible_words st)"
proof -
  from assms obtain g y r where "filter_words (possible_words st) g y r = Inr (possible_words st')"
    by (auto simp: loop_body_def Let_def split: if_splits sum.splits list.splits)
  from filter_words_Inr[OF this] show ?thesis by (metis subseq_filter_left)
qed

lemma score_crane: "score_word remdups ''crane'' Map.empty Map.empty Map.empty (replicate 5 Map.empty) default_weights = Inr 0"
  by (rule score_word_empty_tables[where w_letter = 1 and w_bigram = "1/2" and w_trigram = "1/4"
        and w_position = "3/4" and penalty = "8106479329266893 / 9007199254740992"]) (simp_all add: default_weights_def)

lemma score_stale: "score_word remdups ''stale'' Map.empty Map.empty Map.empty (replicate 5 Map.empty) default_weights = Inr 0"
  by (rule score_word_empty_tables[where w_letter = 1 and w_bigram = "1/2" and w_trigram = "1/4"
        and w_position = "3/4" and penalty = "8106479329266893 / 9007199254740992"]) (simp_all add: default_weights_def)

lemma feedback_crane_stale:
  "get_feedback ''crane'' ''stale'' =
     Inr ([(2, CHR ''a''), (4, CHR ''e'')], [], {CHR ''n'', CHR ''r'', CHR ''c''})"
  by (simp add: get_feedback_def enumerate_eq_zip upt_rec)

lemma filter_crane_stale:
  "filter_words [''crane'', ''stale''] [(2, CHR ''a''), (4, CHR ''e'')] [] {CHR ''n'', CHR ''r'', CHR ''c''}
     = Inr [''stale'']"
  by (simp add: filter_words_def check_gray_def)

lemma body_crane_1:
  "loop_body remdups ''stale'' default_weights Map.empty Map.empty Map.empty (replicate 5 Map.empty)
     \<lparr>green = [], yellow = [], gray = {}, attempts = 0, possible_words = [''crane'', ''stale''],
      used_guesses = {}, guess_log = []\<rparr> =
   Inr (Inr \<lparr>green = [(2, CHR ''a''), (4, CHR ''e'')], yellow = [],
             gray = {CHR ''n'', CHR ''r'', CHR ''c''}, attempts = 1,
             possible_words = [''stale''], used_guesses = {''crane''},
             guess_log = [(''crane'', 2)]\<rparr>)"
  by (simp add: loop_body_def scored_list_def sorted_reverse_def score_crane score_stale
      feedback_crane_stale filter_crane_stale dict_update_def max_attempts_def)

lemma body_crane_2:
  "loop_body remdups ''stale'' default_weights Map.empty Map.empty Map.empty (replicate 5 Map.empty)
     \<lparr>green = [(2, CHR ''a''), (4, CHR ''e'')], yellow = [],
             gray = {CHR ''n'', CHR ''r'', CHR ''c''}, attempts = 1,
             possible_words = [''stale''], used_guesses = {''crane''},
             guess_log = [(''crane'', 2)]\<rparr> =
   Inr (Inl (Solved, Some 2, [(''crane'', 2), (''stale'', 1)]))"
  by (simp add: loop_body_def scored_list_def sorted_reverse_def score_stale)

lemma run_crane_stale:
  "simulate_game_stats remdups ''stale'' [''crane'', ''stale''] default_weights Map.empty Map.empty Map.empty
     (replicate 5 Map.empty) = Inr (Solved, Some 2, [(''crane'', 2), (''stale'', 1)])"
proof -
  have "simulate_loop remdups ''stale'' default_weights Map.empty Map.empty Map.empty (replicate 5 Map.empty)
     \<lparr>green = [], yellow = [], gray = {}, attempts = 0, possible_words = [''crane'', ''stale''],
      used_guesses = {}, guess_log = []\<rparr> = Inr (Solved, Some 2, [(''crane'', 2), (''stale'', 1)])"
    apply (subst simulate_loop_unfold)
    apply (simp only: body_crane_1 sum.case)
    apply (subst simulate_loop_unfold)
    apply (simp only: body_crane_2 sum.case)
    done
  moreover have "''stale'' \<in> set [''crane'', ''stale'']" by simp
  ultimately show ?thesis unfolding simulate_game_stats_def by (simp only: if_False not_True_eq_False)
qed

lemma score_salsa: "score_word remdups ''salsa'' Map.empty Map.empty Map.empty (replicate 5 Map.empty) default_weights = Inr 0"
  by (rule score_word_empty_tables[where w_letter = 1 and w_bigram = "1/2" and w_trigram = "1/4"
        and w_position = "3/4" and penalty = "8106479329266893 / 9007199254740992"]) (simp_all add: default_weights_def)

lemma feedback_salsa_stale:
  "get_feedback ''salsa'' ''stale'' =
     Inr ([(0, CHR ''s'')], [(CHR ''l'', 2)], {CHR ''a'', CHR ''s''})"
  by (auto simp: get_feedback_def enumerate_eq_zip upt_rec)

lemma filter_salsa_stale:
  "filter_words [''salsa'', ''stale''] [(0, CHR ''s'')] [(CHR ''l'', 2)] {CHR ''a'', CHR ''s''} = Inr []"
  by (simp add: filter_words_def check_gray_def)

lemma body_salsa_1:
  "loop_body remdups ''stale'' default_weights Map.empty Map.empty Map.empty (replicate 5 Map.empty)
     \<lparr>green = [], yellow = [], gray = {}, attempts = 0, possible_words = [''salsa'', ''stale''],
      used_guesses = {}, guess_log = []\<rparr> =
   Inr (Inr \<lparr>green = [(0, CHR ''s'')], yellow = [(CHR ''l'', 2)],
             gray = {CHR ''a'', CHR ''s''}, attempts = 1,
             possible_words = [], used_guesses = {''salsa''},
             guess_log = [(''salsa'', 2)]\<rparr>)"
  by (simp add: loop_body_def scored_list_def sorted_reverse_def score_salsa score_stale
      feedback_salsa_stale filter_salsa_stale dict_update_def max_attempts_def)

lemma run_salsa_stale:
  "simulate_game_stats remdups ''stale'' [''salsa'', ''stale''] default_weights Map.empty Map.empty Map.empty
     (replicate 5 Map.empty) = Inr (NoPossibleWords, None, [(''salsa'', 2)])"
proof -
  have "simulate_loop remdups ''stale'' default_weights Map.empty Map.empty Map.empty (replicate 5 Map.empty)
     \<lparr>green = [], yellow = [], gray = {}, attempts = 0, possible_words = [''salsa'', ''stale''],
      used_guesses = {}, guess_log = []\<rparr> = Inr (NoPossibleWords, None, [(''salsa'', 2)])"
    apply (subst simulate_loop_unfold)
    apply (simp only: body_salsa_1 sum.case)
    apply (subst simulate_loop_unfold)
    apply (simp add: loop_body_def)
    done
  moreover have "''stale'' \<in> set [''salsa'', ''stale'']" by simp
  ultimately show ?thesis unfolding simulate_game_stats_def by (simp only: if_False not_True_eq_False)
qed

text \<open>
  C7. For a target that is in the word list, \<^verbatim>\<open>simulate_game_stats\<close> ends (with a result
  or an exception) within 12 passes through the loop body: the loop bounded to 12
  passes gives the result of the unbounded loop. Every returned guess log has at most
  12 entries, an attempt count is returned only with the solved outcome, and a solved
  result has a non-empty log whose last guess is the target and whose length is the
  returned attempt count.
\<close>

theorem simulate_game_stats_terminates:
  assumes "target_word \<in> set word_list"
  shows "simulate_loop_passes 12 set_order target_word weights letter_probs bigram_probs trigram_probs pos_probs
           \<lparr>green = [], yellow = [], gray = {}, attempts = 0, possible_words = word_list,
            used_guesses = {}, guess_log = []\<rparr> =
           Some (simulate_game_stats set_order target_word word_list weights letter_probs bigram_probs
                   trigram_probs pos_probs) \<and>
         (\<forall>oc a gl.
            simulate_game_stats set_order target_word word_list weights letter_probs bigram_probs
              trigram_probs pos_probs = Inr (oc, a, gl) \<longrightarrow>
            length gl \<le> 12 \<and> (a \<noteq> None \<longrightarrow> oc = Solved) \<and>
            (oc = Solved \<longrightarrow> gl \<noteq> [] \<and> fst (last gl) = target_word \<and> a = Some (length gl)))"
proof -
  let ?st = "\<lparr>green = [], yellow = [], gray = {}, attempts = 0, possible_words = word_list,
              used_guesses = {}, guess_log = []\<rparr>"
  have sim: "simulate_game_stats set_order target_word word_list weights letter_probs bigram_probs
               trigram_probs pos_probs =
             simulate_loop set_order target_word weights letter_probs bigram_probs trigram_probs pos_probs ?st"
    using assms by (simp add: simulate_game_stats_def)
  have "simulate_loop_passes 12 set_order target_word weights letter_probs bigram_probs trigram_probs pos_probs ?st =
          Some (simulate_loop set_order target_word weights letter_probs bigram_probs trigram_probs pos_probs ?st)"
    by (rule passes_enough) (simp_all add: max_attempts_def)
  moreover have "\<forall>oc a gl.
      simulate_loop set_order target_word weights letter_probs bigram_probs trigram_probs pos_probs ?st
        = Inr (oc, a, gl) \<longrightarrow>
      length gl \<le> 12 \<and> (a \<noteq> None \<longrightarrow> oc = Solved) \<and>
      (oc = Solved \<longrightarrow> gl \<noteq> [] \<and> fst (last gl) = target_word \<and> a = Some (length gl))"
  proof (intro allI impI)
    fix oc a gl
    assume r: "simulate_loop set_order target_word weights letter_probs bigram_probs trigram_probs pos_probs ?st
                 = Inr (oc, a, gl)"
    have "attempts ?st = length (guess_log ?st)" "attempts ?st < max_attempts"
      by (simp_all add: max_attempts_def)
    from simulate_loop_result[OF this r]
    show "length gl \<le> 12 \<and> (a \<noteq> None \<longrightarrow> oc = Solved) \<and>
          (oc = Solved \<longrightarrow> gl \<noteq> [] \<and> fst (last gl) = target_word \<and> a = Some (length gl))"
      by (simp add: max_attempts_def)
  qed
  ultimately show ?thesis unfolding sim by (rule conjI)
qed

theorem simulate_game_stats_terminates_witness:
  "''stale'' \<in> set [''crane'', ''stale''] \<and>
   simulate_game_stats remdups ''stale'' [''crane'', ''stale''] default_weights Map.empty Map.empty Map.empty
     (replicate 5 Map.empty) = Inr (Solved, Some 2, [(''crane'', 2), (''stale'', 1)]) \<and>
   simulate_loop_passes 12 remdups ''stale'' default_weights Map.empty Map.empty Map.empty (replicate 5 Map.empty)
     \<lparr>green = [], yellow = [], gray = {}, attempts = 0, possible_words = [''crane'', ''stale''],
      used_guesses = {}, guess_log = []\<rparr> =
     Some (Inr (Solved, Some 2, [(''crane'', 2), (''stale'', 1)])) \<and>
   length [(''crane'', 2::nat), (''stale'', 1)] \<le> 12 \<and>
   [(''crane'', 2::nat), (''stale'', 1)] \<noteq> [] \<and>
   fst (last [(''crane'', 2::nat), (''stale'', 1)]) = ''stale'' \<and>
   Some 2 = Some (length [(''crane'', 2::nat), (''stale'', 1)])"
proof -
  have h: "''stale'' \<in> set [''crane'', ''stale'']" by simp
  note inst = simulate_game_stats_terminates[where set_order = remdups and weights = default_weights
      and letter_probs = Map.empty and bigram_probs = Map.empty and trigram_probs = Map.empty
      and pos_probs = "replicate 5 Map.empty", OF h]
  note c1 = conjunct1[OF inst, unfolded run_crane_stale]
  note c2 = conjunct2[OF inst, THEN spec, THEN spec, THEN spec, THEN mp, OF run_crane_stale]
  note c3 = mp[OF conjunct2[OF conjunct2[OF c2]] refl]
  show ?thesis
    by (intro conjI h run_crane_stale c1 conjunct1[OF c2] conjunct1[OF c3]
          conjunct1[OF conjunct2[OF c3]] conjunct2[OF conjunct2[OF c3]])
qed

text \<open>
  C8. For a target that is not in the word list, \<^verbatim>\<open>simulate_game_stats\<close> returns at once,
  without raising: no attempt count, an empty guess log, after the message that the
  target is skipped.
\<close>

theorem simulate_game_stats_rejects:
  assumes "target_word \<notin> set word_list"
  shows "simulate_game_stats set_order target_word word_list weights letter_probs bigram_probs trigram_probs
           pos_probs = Inr (Skipped, None, [])"
  using assms by (simp add: simulate_game_stats_def)

theorem simulate_game_stats_rejects_witness:
  "''zebra'' \<notin> set [''stale'', ''crane''] \<and>
   simulate_game_stats remdups ''zebra'' [''stale'', ''crane''] default_weights Map.empty Map.empty Map.empty
     (replicate 5 Map.empty) = Inr (Skipped, None, [])"
proof -
  have h: "''zebra'' \<notin> set [''stale'', ''crane'']" by simp
  show ?thesis by (rule conjI[OF h simulate_game_stats_rejects[OF h]])
qed

text \<open>
  C9. The claim: with the empty corpus as word list, \<^verbatim>\<open>simulate_game_stats\<close> reaches the
  outcome of the empty candidate pool. On the code no target is in the empty list, so
  the membership test at the start returns first, with the message of a skipped target,
  and the loop is never entered.
\<close>

theorem empty_corpus_counterexample:
  "simulate_game_stats remdups ''stale'' [] default_weights (get_letter_probs []) (get_ngram_probs [] 2)
     (get_ngram_probs [] 3) (replicate 5 Map.empty) = Inr (Skipped, None, []) \<and>
   simulate_game_stats remdups ''stale'' [] default_weights (get_letter_probs []) (get_ngram_probs [] 2)
     (get_ngram_probs [] 3) (replicate 5 Map.empty) \<noteq> Inr (NoPossibleWords, None, [])"
  by (simp add: simulate_game_stats_def)

text \<open>
  C9, as amended: for the empty corpus the three builders return empty tables (five
  empty tables for the positions) without error; over empty tables \<^verbatim>\<open>score_word\<close> returns
  0 for every word of at least five letters and weights holding the five keys; and
  \<^verbatim>\<open>simulate_game_stats\<close> with the empty word list rejects every target at the membership
  test: unsolved, empty guess log, the loop not entered. The loop itself, entered with
  an empty candidate pool, returns at once with the outcome of the empty pool, which is
  another outcome than the one of the exhausted budget.
\<close>

theorem empty_corpus:
  "get_letter_probs [] = Map.empty \<and>
   get_ngram_probs [] n = Map.empty \<and>
   get_positional_probs [] = Inr (replicate 5 Map.empty) \<and>
   (5 \<le> length word \<and> {''letter'', ''bigram'', ''trigram'', ''position'', ''repeat_penalty''} \<subseteq> dom weights \<longrightarrow>
      score_word set_order word Map.empty Map.empty Map.empty (replicate 5 Map.empty) weights = Inr 0) \<and>
   simulate_game_stats set_order target_word [] weights letter_probs bigram_probs trigram_probs pos_probs =
     Inr (Skipped, None, []) \<and>
   (possible_words st = [] \<longrightarrow>
      simulate_loop set_order target_word weights letter_probs bigram_probs trigram_probs pos_probs st =
        Inr (NoPossibleWords, None, guess_log st))"
proof (intro conjI impI)
  show "get_letter_probs [] = Map.empty" by (simp add: get_letter_probs_def normalise_Nil)
  show "get_ngram_probs [] n = Map.empty" by (simp add: get_ngram_probs_def normalise_Nil)
  have "map (\<lambda>i. normalise (map (\<lambda>word. word ! i) (filter (\<lambda>word. i < length word) ([]::string list)))) [0..<5]
          = replicate 5 Map.empty"
    by (simp add: normalise_Nil map_replicate_const)
  then show "get_positional_probs [] = Inr (replicate 5 Map.empty)"
    by (simp add: get_positional_probs_def)
next
  assume a: "5 \<le> length word \<and> {''letter'', ''bigram'', ''trigram'', ''position'', ''repeat_penalty''} \<subseteq> dom weights"
  then obtain a1 a2 a3 a4 a5 where "weights ''letter'' = Some a1" "weights ''bigram'' = Some a2"
     "weights ''trigram'' = Some a3" "weights ''position'' = Some a4" "weights ''repeat_penalty'' = Some a5"
    by (auto simp: dom_def)
  with a show "score_word set_order word Map.empty Map.empty Map.empty (replicate 5 Map.empty) weights = Inr 0"
    by (simp add: score_word_empty_tables)
next
  show "simulate_game_stats set_order target_word [] weights letter_probs bigram_probs trigram_probs pos_probs =
     Inr (Skipped, None, [])" by (simp add: simulate_game_stats_def)
next
  assume "possible_words st = []"
  then have "loop_body set_order target_word weights letter_probs bigram_probs trigram_probs pos_probs st =
      Inr (Inl (NoPossibleWords, None, guess_log st))" by (simp add: loop_body_def)
  then show "simulate_loop set_order target_word weights letter_probs bigram_probs trigram_probs pos_probs st =
        Inr (NoPossibleWords, None, guess_log st)"
    by (subst simulate_loop_unfold) simp
qed

theorem empty_corpus_witness:
  "get_letter_probs [] = Map.empty \<and>
   get_ngram_probs [] 2 = Map.empty \<and>
   get_positional_probs [] = Inr (replicate 5 Map.empty) \<and>
   (5 \<le> length ''stale'' \<and>
    {''letter'', ''bigram'', ''trigram'', ''position'', ''repeat_penalty''} \<subseteq> dom default_weights) \<and>
   score_word remdups ''stale'' Map.empty Map.empty Map.empty (replicate 5 Map.empty) default_weights = Inr 0 \<and>
   simulate_game_stats remdups ''stale'' [] default_weights Map.empty Map.empty Map.empty (replicate 5 Map.empty) =
     Inr (Skipped, None, []) \<and>
   possible_words \<lparr>green = [(0, CHR ''s'')], yellow = [(CHR ''l'', 2)], gray = {CHR ''a'', CHR ''s''},
                   attempts = 1, possible_words = [], used_guesses = {''salsa''},
                   guess_log = [(''salsa'', 2)]\<rparr> = [] \<and>
   simulate_loop remdups ''stale'' default_weights Map.empty Map.empty Map.empty (replicate 5 Map.empty)
     \<lparr>green = [(0, CHR ''s'')], yellow = [(CHR ''l'', 2)], gray = {CHR ''a'', CHR ''s''},
      attempts = 1, possible_words = [], used_guesses = {''salsa''},
      guess_log = [(''salsa'', 2)]\<rparr> =
     Inr (NoPossibleWords, None,
          guess_log \<lparr>green = [(0, CHR ''s'')], yellow = [(CHR ''l'', 2)], gray = {CHR ''a'', CHR ''s''},
                     attempts = 1, possible_words = [], used_guesses = {''salsa''},
                     guess_log = [(''salsa'', 2)]\<rparr>)"
proof -
  let ?st = "\<lparr>green = [(0, CHR ''s'')], yellow = [(CHR ''l'', 2)], gray = {CHR ''a'', CHR ''s''},
              attempts = 1, possible_words = [], used_guesses = {''salsa''},
              guess_log = [(''salsa'', 2)]\<rparr>"
  have h1: "5 \<le> length ''stale'' \<and>
    {''letter'', ''bigram'', ''trigram'', ''position'', ''repeat_penalty''} \<subseteq> dom default_weights"
    by (simp add: default_weights_def)
  have h2: "possible_words ?st = []" by simp
  note inst = empty_corpus[where n = 2 and word = "''stale''" and weights = default_weights
      and set_order = remdups and target_word = "''stale''" and letter_probs = Map.empty
      and bigram_probs = Map.empty and trigram_probs = Map.empty
      and pos_probs = "replicate 5 Map.empty" and st = ?st]
  note a1 = conjunct1[OF inst]
  note r1 = conjunct2[OF inst]
  note a2 = conjunct1[OF r1]
  note r2 = conjunct2[OF r1]
  note a3 = conjunct1[OF r2]
  note r3 = conjunct2[OF r2]
  note a4 = mp[OF conjunct1[OF r3] h1]
  note r4 = conjunct2[OF r3]
  note a5 = conjunct1[OF r4]
  note a6 = mp[OF conjunct2[OF r4] h2]
  show ?thesis by (intro conjI a1 a2 a3 conjunct1[OF h1] conjunct2[OF h1] a4 a5 h2 a6)
qed

lemma keys_of_cong:
  "\<forall>x \<in> set xs. key1 x = key2 x \<Longrightarrow> keys_of key1 xs = keys_of key2 xs"
  by (induction xs) (simp_all cong: sum.case_cong)

lemma scored_list_cong:
  "\<forall>x \<in> set xs. key1 x = key2 x \<Longrightarrow> scored_list key1 xs used = scored_list key2 xs used"
  by (simp add: scored_list_def sorted_reverse_def keys_of_cong[of xs key1 key2])

lemma loop_body_cong:
  assumes "\<forall>w \<in> set (possible_words st).
             score_word so1 w lp bp tp pp W = score_word so2 w lp bp tp pp W"
  shows "loop_body so1 T W lp bp tp pp st = loop_body so2 T W lp bp tp pp st"
  unfolding loop_body_def
  using scored_list_cong[of "possible_words st" "\<lambda>w. score_word so1 w lp bp tp pp W"
      "\<lambda>w. score_word so2 w lp bp tp pp W" "used_guesses st", OF assms]
  by simp

lemma loop_body_pool_set:
  assumes "loop_body so T W lp bp tp pp st = Inr (Inr st')"
  shows "set (possible_words st') \<subseteq> set (possible_words st)"
proof -
  from assms obtain g y r where "filter_words (possible_words st) g y r = Inr (possible_words st')"
    by (auto simp: loop_body_def Let_def split: if_splits sum.splits list.splits)
  from filter_words_Inr[OF this] have "possible_words st' = filter (keeps g y r) (possible_words st)" .
  then show ?thesis by (metis filter_is_subset)
qed

lemma simulate_loop_cong:
  "\<forall>w \<in> S. score_word so1 w lp bp tp pp W = score_word so2 w lp bp tp pp W \<Longrightarrow>
   set (possible_words st) \<subseteq> S \<Longrightarrow>
   simulate_loop so1 T W lp bp tp pp st = simulate_loop so2 T W lp bp tp pp st"
proof (induction so1 T W lp bp tp pp st rule: simulate_loop.induct)
  case (1 so1 T W lp bp tp pp st)
  have eq: "loop_body so2 T W lp bp tp pp st = loop_body so1 T W lp bp tp pp st"
    by (rule loop_body_cong[symmetric]) (use "1.prems" in blast)
  have l: "simulate_loop so1 T W lp bp tp pp st =
             (case loop_body so1 T W lp bp tp pp st of
                Inl e \<Rightarrow> Inl e
              | Inr (Inl res) \<Rightarrow> Inr res
              | Inr (Inr st') \<Rightarrow> simulate_loop so1 T W lp bp tp pp st')"
    by (rule simulate_loop_unfold)
  have r: "simulate_loop so2 T W lp bp tp pp st =
             (case loop_body so1 T W lp bp tp pp st of
                Inl e \<Rightarrow> Inl e
              | Inr (Inl res) \<Rightarrow> Inr res
              | Inr (Inr st') \<Rightarrow> simulate_loop so2 T W lp bp tp pp st')"
    by (subst simulate_loop_unfold) (simp only: eq)
  show ?case
  proof (cases "loop_body so1 T W lp bp tp pp st")
    case (Inl e)
    then show ?thesis by (simp only: l r sum.case)
  next
    case (Inr x)
    show ?thesis
    proof (cases x)
      case (Inl res)
      with Inr have lb: "loop_body so1 T W lp bp tp pp st = Inr (Inl res)" by simp
      show ?thesis by (simp only: l r lb sum.case)
    next
      case st': (Inr st')
      with Inr have lb: "loop_body so1 T W lp bp tp pp st = Inr (Inr st')" by simp
      have "set (possible_words st') \<subseteq> S"
        using loop_body_pool_set[OF lb] "1.prems"(2) by blast
      from "1.IH"[OF Inr st' "1.prems"(1) this] show ?thesis
        by (simp only: l r lb sum.case)
    qed
  qed
qed

lemma score_crane_a:
  "score_word order_a ''crane'' letters_table Map.empty Map.empty (replicate 5 Map.empty) default_weights
     = Inr (1351079888211149 / 2251799813685248)"
  by (simp add: score_word_def subscript_def default_weights_def get_or_0_def Let_def upt_rec
      order_a_def letters_table_def float_sum_def float_add_def float_mul_def round_double_values)

lemma score_crane_b:
  "score_word order_b ''crane'' letters_table Map.empty Map.empty (replicate 5 Map.empty) default_weights
     = Inr (5404319552844595 / 9007199254740992)"
  by (simp add: score_word_def subscript_def default_weights_def get_or_0_def Let_def upt_rec
      order_b_def letters_table_def float_sum_def float_add_def float_mul_def round_double_values)

lemma score_blimp_a:
  "score_word order_a ''blimp'' letters_table Map.empty Map.empty (replicate 5 Map.empty) default_weights
     = Inr (5404319552844595 / 9007199254740992)"
  by (simp add: score_word_def subscript_def default_weights_def get_or_0_def Let_def upt_rec
      order_a_def letters_table_def float_sum_def float_add_def float_mul_def round_double_values)

lemma score_blimp_b:
  "score_word order_b ''blimp'' letters_table Map.empty Map.empty (replicate 5 Map.empty) default_weights
     = Inr (5404319552844595 / 9007199254740992)"
  by (simp add: score_word_def subscript_def default_weights_def get_or_0_def Let_def upt_rec
      order_b_def letters_table_def float_sum_def float_add_def float_mul_def round_double_values)

lemma feedback_blimp_crane:
  "get_feedback ''blimp'' ''crane'' =
     Inr ([], [], {CHR ''p'', CHR ''m'', CHR ''i'', CHR ''l'', CHR ''b''})"
  by (simp add: get_feedback_def enumerate_eq_zip upt_rec)

lemma filter_blimp_crane:
  "filter_words [''blimp'', ''crane''] [] [] {CHR ''p'', CHR ''m'', CHR ''i'', CHR ''l'', CHR ''b''}
     = Inr [''crane'']"
  by (simp add: filter_words_def check_gray_def)

lemma body_order_a:
  "loop_body order_a ''crane'' default_weights letters_table Map.empty Map.empty (replicate 5 Map.empty)
     \<lparr>green = [], yellow = [], gray = {}, attempts = 0, possible_words = [''blimp'', ''crane''],
      used_guesses = {}, guess_log = []\<rparr> =
   Inr (Inl (Solved, Some 1, [(''crane'', 2)]))"
  by (simp add: loop_body_def scored_list_def sorted_reverse_def score_crane_a score_blimp_a)

lemma body_order_b_1:
  "loop_body order_b ''crane'' default_weights letters_table Map.empty Map.empty (replicate 5 Map.empty)
     \<lparr>green = [], yellow = [], gray = {}, attempts = 0, possible_words = [''blimp'', ''crane''],
      used_guesses = {}, guess_log = []\<rparr> =
   Inr (Inr \<lparr>green = [], yellow = [],
             gray = {CHR ''p'', CHR ''m'', CHR ''i'', CHR ''l'', CHR ''b''}, attempts = 1,
             possible_words = [''crane''], used_guesses = {''blimp''},
             guess_log = [(''blimp'', 2)]\<rparr>)"
  by (simp add: loop_body_def scored_list_def sorted_reverse_def score_crane_b score_blimp_b
      feedback_blimp_crane filter_blimp_crane dict_update_def max_attempts_def)

lemma body_order_b_2:
  "loop_body order_b ''crane'' default_weights letters_table Map.empty Map.empty (replicate 5 Map.empty)
     \<lparr>green = [], yellow = [],
      gray = {CHR ''p'', CHR ''m'', CHR ''i'', CHR ''l'', CHR ''b''}, attempts = 1,
      possible_words = [''crane''], used_guesses = {''blimp''},
      guess_log = [(''blimp'', 2)]\<rparr> =
   Inr (Inl (Solved, Some 2, [(''blimp'', 2), (''crane'', 1)]))"
  by (simp add: loop_body_def scored_list_def sorted_reverse_def score_crane_b)

lemma run_order_a:
  "simulate_game_stats order_a ''crane'' [''blimp'', ''crane''] default_weights letters_table
     Map.empty Map.empty (replicate 5 Map.empty) = Inr (Solved, Some 1, [(''crane'', 2)])"
proof -
  have "simulate_loop order_a ''crane'' default_weights letters_table Map.empty Map.empty
     (replicate 5 Map.empty)
     \<lparr>green = [], yellow = [], gray = {}, attempts = 0, possible_words = [''blimp'', ''crane''],
      used_guesses = {}, guess_log = []\<rparr> = Inr (Solved, Some 1, [(''crane'', 2)])"
    by (subst simulate_loop_unfold) (simp only: body_order_a sum.case)
  moreover have "''crane'' \<in> set [''blimp'', ''crane'']" by simp
  ultimately show ?thesis unfolding simulate_game_stats_def by (simp only: if_False not_True_eq_False)
qed

lemma run_order_b:
  "simulate_game_stats order_b ''crane'' [''blimp'', ''crane''] default_weights letters_table
     Map.empty Map.empty (replicate 5 Map.empty) =
   Inr (Solved, Some 2, [(''blimp'', 2), (''crane'', 1)])"
proof -
  have "simulate_loop order_b ''crane'' default_weights letters_table Map.empty Map.empty
     (replicate 5 Map.empty)
     \<lparr>green = [], yellow = [], gray = {}, attempts = 0, possible_words = [''blimp'', ''crane''],
      used_guesses = {}, guess_log = []\<rparr> = Inr (Solved, Some 2, [(''blimp'', 2), (''crane'', 1)])"
    apply (subst simulate_loop_unfold)
    apply (simp only: body_order_b_1 sum.case)
    apply (subst simulate_loop_unfold)
    apply (simp only: body_order_b_2 sum.case)
    done
  moreover have "''crane'' \<in> set [''blimp'', ''crane'']" by simp
  ultimately show ?thesis unfolding simulate_game_stats_def by (simp only: if_False not_True_eq_False)
qed

text \<open>
  C10. The claim: for a fixed target, word list, weights and tables, two runs of
  \<^verbatim>\<open>simulate_game_stats\<close> produce identical results. On the code the letter sum of
  \<^verbatim>\<open>score_word\<close> adds floats in the iteration order of \<^verbatim>\<open>set(word)\<close>, which changes with the
  hash seed of the process. With the word list \<^verbatim>\<open>['blimp', 'crane']\<close>, the target
  \<^verbatim>\<open>'crane'\<close>, the weights of the main script and a letter table holding 0.1, 0.2, 0.3
  and 0.6 for c, r, a and b, the orders of CPython 3.11 under the hash seeds 0 and 1 give
  \<^verbatim>\<open>'crane'\<close> the scores 0.6000000000000001 and 0.6, against 0.6 for \<^verbatim>\<open>'blimp'\<close>: the first
  run guesses \<^verbatim>\<open>'crane'\<close> and solves in one attempt, the second guesses \<^verbatim>\<open>'blimp'\<close> first
  and solves in two.
\<close>

theorem simulate_game_stats_order_counterexample:
  "distinct (order_a ''crane'') \<and> set (order_a ''crane'') = set ''crane'' \<and>
   distinct (order_a ''blimp'') \<and> set (order_a ''blimp'') = set ''blimp'' \<and>
   distinct (order_b ''crane'') \<and> set (order_b ''crane'') = set ''crane'' \<and>
   distinct (order_b ''blimp'') \<and> set (order_b ''blimp'') = set ''blimp'' \<and>
   simulate_game_stats order_a ''crane'' [''blimp'', ''crane''] default_weights letters_table
     Map.empty Map.empty (replicate 5 Map.empty) = Inr (Solved, Some 1, [(''crane'', 2)]) \<and>
   simulate_game_stats order_b ''crane'' [''blimp'', ''crane''] default_weights letters_table
     Map.empty Map.empty (replicate 5 Map.empty) =
     Inr (Solved, Some 2, [(''blimp'', 2), (''crane'', 1)])"
proof -
  have o: "distinct (order_a ''crane'')" "set (order_a ''crane'') = set ''crane''"
    "distinct (order_a ''blimp'')" "set (order_a ''blimp'') = set ''blimp''"
    "distinct (order_b ''crane'')" "set (order_b ''crane'') = set ''crane''"
    "distinct (order_b ''blimp'')" "set (order_b ''blimp'') = set ''blimp''"
    by (auto simp: order_a_def order_b_def)
  show ?thesis by (intro conjI o run_order_a run_order_b)
qed

lemma score_empty_default:
  "5 \<le> length w \<Longrightarrow>
   score_word so w Map.empty Map.empty Map.empty (replicate 5 Map.empty) default_weights = Inr 0"
  by (rule score_word_empty_tables[where w_letter = 1 and w_bigram = "1/2" and w_trigram = "1/4"
        and w_position = "3/4" and penalty = "8106479329266893 / 9007199254740992"])
     (simp_all add: default_weights_def)

text \<open>
  C10, as amended: the result of \<^verbatim>\<open>simulate_game_stats\<close> is determined by its inputs
  together with the scores of the words of the word list: two runs on the same target,
  word list, weights and tables whose set iteration orders give every word of the word
  list the same score produce the same result. In every pass through the loop body,
  either no guess is issued, or the guess logged is the first unused candidate of the
  pool with the maximal score, and no other word has that property (ties in the score go
  to the candidate that comes first); and the pool of the next pass is a subsequence of
  the pool, so the order of the pool is always the order of the word list.
\<close>

theorem simulate_game_stats_determined:
  "((\<forall>w \<in> set word_list.
       score_word set_order w letter_probs bigram_probs trigram_probs pos_probs weights =
       score_word set_order' w letter_probs bigram_probs trigram_probs pos_probs weights) \<longrightarrow>
     simulate_game_stats set_order target_word word_list weights letter_probs bigram_probs
       trigram_probs pos_probs =
     simulate_game_stats set_order' target_word word_list weights letter_probs bigram_probs
       trigram_probs pos_probs) \<and>
   (loop_body set_order target_word weights letter_probs bigram_probs trigram_probs pos_probs st
      = Inr r \<longrightarrow>
     (log_after r = guess_log st \<or>
      (\<exists>guess. log_after r = guess_log st @ [(guess, length (possible_words st))] \<and>
         first_best
           (\<lambda>w. score_word set_order w letter_probs bigram_probs trigram_probs pos_probs weights)
           (used_guesses st) (possible_words st) guess \<and>
         (\<forall>g'. first_best
                  (\<lambda>w. score_word set_order w letter_probs bigram_probs trigram_probs pos_probs
                         weights)
                  (used_guesses st) (possible_words st) g' \<longrightarrow> g' = guess))) \<and>
     (\<forall>st'. r = Inr st' \<longrightarrow> subseq (possible_words st') (possible_words st)))"
proof (intro conjI impI)
  assume eq: "\<forall>w \<in> set word_list.
       score_word set_order w letter_probs bigram_probs trigram_probs pos_probs weights =
       score_word set_order' w letter_probs bigram_probs trigram_probs pos_probs weights"
  let ?st = "\<lparr>green = [], yellow = [], gray = {}, attempts = 0, possible_words = word_list,
              used_guesses = {}, guess_log = []\<rparr>"
  have "set (possible_words ?st) \<subseteq> set word_list" by simp
  from simulate_loop_cong[OF eq this]
  show "simulate_game_stats set_order target_word word_list weights letter_probs bigram_probs
       trigram_probs pos_probs =
     simulate_game_stats set_order' target_word word_list weights letter_probs bigram_probs
       trigram_probs pos_probs"
    by (simp add: simulate_game_stats_def)
next
  let ?key = "\<lambda>w. score_word set_order w letter_probs bigram_probs trigram_probs pos_probs weights"
  assume lb: "loop_body set_order target_word weights letter_probs bigram_probs trigram_probs
                pos_probs st = Inr r"
  from loop_body_guess[OF lb]
  show "log_after r = guess_log st \<or>
          (\<exists>guess. log_after r = guess_log st @ [(guess, length (possible_words st))] \<and>
             first_best ?key (used_guesses st) (possible_words st) guess \<and>
             (\<forall>g'. first_best ?key (used_guesses st) (possible_words st) g' \<longrightarrow> g' = guess))"
  proof
    assume "log_after r = guess_log st"
    then show ?thesis by (rule disjI1)
  next
    assume "\<exists>g rest. scored_list ?key (possible_words st) (used_guesses st) = Inr (g # rest) \<and>
                    log_after r = guess_log st @ [(g, length (possible_words st))]"
    then obtain g rest where s: "scored_list ?key (possible_words st) (used_guesses st) = Inr (g # rest)"
      and l: "log_after r = guess_log st @ [(g, length (possible_words st))]" by blast
    have fb: "first_best ?key (used_guesses st) (possible_words st) g"
      by (rule scored_list_first_best[OF s])
    have "\<forall>g'. first_best ?key (used_guesses st) (possible_words st) g' \<longrightarrow> g' = g"
      using first_best_same[OF fb] by blast
    with l fb show ?thesis by blast
  qed
  show "\<forall>st'. r = Inr st' \<longrightarrow> subseq (possible_words st') (possible_words st)"
    using lb loop_body_pool by blast
qed

theorem simulate_game_stats_determined_witness:
  "score_word order_a ''blimp'' Map.empty Map.empty Map.empty (replicate 5 Map.empty) default_weights =
   score_word order_b ''blimp'' Map.empty Map.empty Map.empty (replicate 5 Map.empty) default_weights \<and>
   score_word order_a ''crane'' Map.empty Map.empty Map.empty (replicate 5 Map.empty) default_weights =
   score_word order_b ''crane'' Map.empty Map.empty Map.empty (replicate 5 Map.empty) default_weights \<and>
   simulate_game_stats order_a ''crane'' [''blimp'', ''crane''] default_weights Map.empty Map.empty
     Map.empty (replicate 5 Map.empty) =
   simulate_game_stats order_b ''crane'' [''blimp'', ''crane''] default_weights Map.empty Map.empty
     Map.empty (replicate 5 Map.empty) \<and>
   loop_body order_b ''crane'' default_weights letters_table Map.empty Map.empty (replicate 5 Map.empty)
     \<lparr>green = [], yellow = [], gray = {}, attempts = 0, possible_words = [''blimp'', ''crane''],
      used_guesses = {}, guess_log = []\<rparr> =
   Inr (Inr \<lparr>green = [], yellow = [],
             gray = {CHR ''p'', CHR ''m'', CHR ''i'', CHR ''l'', CHR ''b''}, attempts = 1,
             possible_words = [''crane''], used_guesses = {''blimp''},
             guess_log = [(''blimp'', 2)]\<rparr>) \<and>
   first_best
     (\<lambda>w. score_word order_b w letters_table Map.empty Map.empty (replicate 5 Map.empty)
            default_weights)
     {} [''blimp'', ''crane''] ''blimp'' \<and>
   subseq [''crane''] [''blimp'', ''crane'']"
proof -
  let ?E = "replicate 5 (Map.empty :: char \<rightharpoonup> real)"
  have s1: "score_word order_a ''blimp'' Map.empty Map.empty Map.empty ?E default_weights =
            score_word order_b ''blimp'' Map.empty Map.empty Map.empty ?E default_weights"
    by (simp add: score_empty_default)
  have s2: "score_word order_a ''crane'' Map.empty Map.empty Map.empty ?E default_weights =
            score_word order_b ''crane'' Map.empty Map.empty Map.empty ?E default_weights"
    by (simp add: score_empty_default)
  have h: "\<forall>w \<in> set [''blimp'', ''crane''].
             score_word order_a w Map.empty Map.empty Map.empty ?E default_weights =
             score_word order_b w Map.empty Map.empty Map.empty ?E default_weights"
    using s1 s2 by simp
  note two = mp[OF conjunct1[OF simulate_game_stats_determined[where set_order = order_a
        and set_order' = order_b and word_list = "[''blimp'', ''crane'']" and weights = default_weights
        and letter_probs = Map.empty and bigram_probs = Map.empty and trigram_probs = Map.empty
        and pos_probs = ?E and target_word = "''crane''"]] h]
  note one = mp[OF conjunct2[OF simulate_game_stats_determined[where set_order = order_b
        and weights = default_weights and letter_probs = letters_table and bigram_probs = Map.empty
        and trigram_probs = Map.empty and pos_probs = ?E and target_word = "''crane''"]]
      body_order_b_1]
  have fb: "first_best
     (\<lambda>w. score_word order_b w letters_table Map.empty Map.empty ?E default_weights)
     {} [''blimp'', ''crane''] ''blimp''"
    using conjunct1[OF one] by auto
  have sb: "subseq [''crane''] [''blimp'', ''crane'']"
    using conjunct2[OF one] by auto
  show ?thesis by (intro conjI s1 s2 two body_order_b_1 fb sb)
qed

end
